theory Spec2Isabelle
  imports Main "HOL-Library.AList"
begin

section \<open>Run-time types, values and errors\<close>

text \<open>
  The container works on Go's \<^verbatim>\<open>reflect.Type\<close> and \<^verbatim>\<open>reflect.Value\<close>. A type is
  modelled by what the code reads of it: \<^verbatim>\<open>Name()\<close>, \<^verbatim>\<open>PkgPath()\<close>, its rendering
  \<^verbatim>\<open>String()\<close> (what \<^verbatim>\<open>%v\<close> prints), \<^verbatim>\<open>Kind()\<close>, and the component types
  \<^verbatim>\<open>Elem()\<close>, \<^verbatim>\<open>Key()\<close>, \<^verbatim>\<open>In(i)\<close>, \<^verbatim>\<open>Out(i)\<close>. Every type, composite or
  not, may be a defined (named) type: \<^verbatim>\<open>type Foos []foo\<close> has kind Slice, a name, a
  package path and the element type \<^verbatim>\<open>foo\<close>.
\<close>

datatype prim =
    Bool | IntK | Int8 | Int16 | Int32 | Int64
  | Uint | Uint8 | Uint16 | Uint32 | Uint64 | Uintptr
  | Float32 | Float64 | Complex64 | Complex128
  | String | UnsafePointer

text \<open>The kinds of \<^verbatim>\<open>reflect\<close>; \<open>IntK\<close> is \<^verbatim>\<open>reflect.Int\<close>.\<close>

datatype kind =
    Invalid | Prim prim | Array | Chan | Func | Interface | Map | Pointer | Slice | Struct

text \<open>
  The header of a type is \<^verbatim>\<open>Name()\<close>, \<^verbatim>\<open>PkgPath()\<close>, \<^verbatim>\<open>String()\<close> and the names of
  the methods in its method set (for an interface type, the methods it asks for); the
  shape is its kind with the component types.
\<close>

datatype rtype =
    RType (Name: string) (PkgPath: string) (typeString: string) (methods: "string list")
      (shape: shape)
and shape =
    PrimS prim
  | StructS
  | InterfaceS
  | ArrayS rtype
  | ChanS rtype
  | PointerS rtype
  | SliceS rtype
  | MapS rtype rtype
  | FuncS "rtype list" "rtype list"

fun shapeKind :: "shape \<Rightarrow> kind" where
  "shapeKind (PrimS k) = Prim k"
| "shapeKind StructS = Struct"
| "shapeKind InterfaceS = Interface"
| "shapeKind (ArrayS e) = Array"
| "shapeKind (ChanS e) = Chan"
| "shapeKind (PointerS e) = Pointer"
| "shapeKind (SliceS e) = Slice"
| "shapeKind (MapS k e) = Map"
| "shapeKind (FuncS ins outs) = Func"

definition Kind :: "rtype \<Rightarrow> kind" where
  "Kind t = shapeKind (shape t)"

text \<open>\<^verbatim>\<open>Elem()\<close> panics on a type that is not an Array, Chan, Map, Pointer or Slice:
  \<open>None\<close> is that panic.\<close>

fun shapeElem :: "shape \<Rightarrow> rtype option" where
  "shapeElem (ArrayS e) = Some e"
| "shapeElem (ChanS e) = Some e"
| "shapeElem (PointerS e) = Some e"
| "shapeElem (SliceS e) = Some e"
| "shapeElem (MapS k e) = Some e"
| "shapeElem _ = None"

definition Elem :: "rtype \<Rightarrow> rtype option" where
  "Elem t = shapeElem (shape t)"

text \<open>
  \<^verbatim>\<open>t.Implements(u)\<close>: the method set of \<open>t\<close> holds every method of the interface
  \<open>u\<close>; it panics (\<open>None\<close>) when \<open>u\<close> is not an interface type.
\<close>

definition Implements :: "rtype \<Rightarrow> rtype \<Rightarrow> bool option" where
  "Implements t u =
     (if Kind u = Interface then Some (\<forall>m \<in> set (methods u). m \<in> set (methods t)) else None)"

text \<open>A code location (\<^verbatim>\<open>location\<close> in location.go).\<close>

record location =
  name :: string
  pkg :: string
  filename :: string
  line :: int

text \<open>\<^verbatim>\<open>Name()\<close> of a location: \<^verbatim>\<open>formatFullName(f.pkg, f.name)\<close>.\<close>

definition formatFullName :: "string \<Rightarrow> string \<Rightarrow> string" where
  "formatFullName p n = p @ ''.'' @ n"

definition locationName :: "location \<Rightarrow> string" where
  "locationName f = formatFullName (pkg f) (name f)"

text \<open>
  Errors. \<open>New\<close> is \<^verbatim>\<open>errors.New\<close> (the sentinel errors of the package are definitions
  below), \<open>Wrapf\<close> is \<^verbatim>\<open>errors.Wrapf\<close> with its format string and arguments kept apart
  rather than rendered, \<open>WithStack\<close> is \<^verbatim>\<open>errors.WithStack\<close>, \<open>Errorf\<close> is
  \<^verbatim>\<open>fmt.Errorf\<close>. The three struct errors of errors.go carry their fields (for
  \<open>ErrNoTypeForExplicitBindingFound\<close>: implementation, interface, module name).
  \<open>MissingDependency\<close> is the error kind of the spec for a required input type without a
  resolver; the code that raises it is not in the sources at hand. \<open>Panic\<close> is a run-time
  panic of Go, which is not a returned error: it stands for the unwinding of the call.
  \<open>OutOfFuel\<close> is no error of the program: it marks that the bound which the model puts
  on the depth of nested resolution was reached.
\<close>

datatype error =
    New string
  | Wrapf error string "fmtarg list"
  | WithStack error
  | Errorf string "fmtarg list"
  | ErrMultipleImplicitInterfaceBindings rtype "rtype list"
  | ErrNoTypeForExplicitBindingFound string string string
  | ErrDuplicateDefinition rtype location string
  | MissingDependency rtype location
  | Panic string
  | OutOfFuel
and fmtarg = ArgString string | ArgType rtype | ArgLocation location | ArgError error

definition ErrTypeNotExported :: error where
  "ErrTypeNotExported = New ''type must be exported''"

definition ErrInternalPackage :: error where
  "ErrInternalPackage = New ''type must not come from an internal package''"

section \<open>Validation of registered types\<close>

text \<open>
  \<^verbatim>\<open>strings.Split(s, "/")\<close>: the pieces of \<open>s\<close> between the separators; the empty string
  splits into one empty piece.
\<close>

fun Split :: "string \<Rightarrow> char \<Rightarrow> string list" where
  "Split [] sep = [] # []"
| "Split (c # cs) sep =
     (if c = sep then [] # Split cs sep
      else (case Split cs sep of w # ws \<Rightarrow> (c # w) # ws | [] \<Rightarrow> [c] # []))"

text \<open>
  \<^verbatim>\<open>unicode.IsLower\<close> on the first rune of a name. Names are taken to be ASCII, where the
  first rune is the first byte and the lower-case letters are \<^verbatim>\<open>a\<close> to \<^verbatim>\<open>z\<close>.
\<close>

definition IsLower :: "char \<Rightarrow> bool" where
  "IsLower c = (97 \<le> (of_char c :: nat) \<and> (of_char c :: nat) \<le> 122)"

text \<open>\<^verbatim>\<open>isExported\<close>: \<^verbatim>\<open>!unicode.IsLower([]rune(name)[0])\<close>; indexing the empty name panics
  (\<open>None\<close>).\<close>

fun isExported :: "string \<Rightarrow> bool option" where
  "isExported [] = None"
| "isExported (c # cs) = Some (\<not> IsLower c)"

definition isInternalPackage :: "string \<Rightarrow> bool" where
  "isInternalPackage pkgPath = (''internal'' \<in> set (Split pkgPath (CHR ''/'')))"

definition isNamedType :: "rtype \<Rightarrow> bool" where
  "isNamedType typ = (Name typ \<noteq> [] \<and> PkgPath typ \<noteq> [])"

definition checkNamedType :: "rtype \<Rightarrow> error option" where
  "checkNamedType typ =
     (case isExported (Name typ) of
        None \<Rightarrow> Some (Panic ''index out of range'')
      | Some ex \<Rightarrow>
          if \<not> ex then Some (Wrapf ErrTypeNotExported ''%s'' [ArgType typ])
          else if isInternalPackage (PkgPath typ)
          then Some (Wrapf ErrInternalPackage ''%s'' [ArgType typ])
          else None)"

text \<open>
  \<^verbatim>\<open>isExportedType\<close>, \<^verbatim>\<open>checkCompositeType\<close> and \<^verbatim>\<open>checkFuncType\<close>; \<open>None\<close> is the
  \<^verbatim>\<open>nil\<close> error. The two loops of \<^verbatim>\<open>checkFuncType\<close> over \<^verbatim>\<open>In(i)\<close> and \<^verbatim>\<open>Out(i)\<close> are
  \<open>checkTypes\<close> on the parameter and on the result list.
\<close>

fun isExportedType :: "rtype \<Rightarrow> error option"
  and checkCompositeType :: "rtype \<Rightarrow> error option"
  and checkTypes :: "rtype list \<Rightarrow> error option"
where
  "isExportedType typ =
     (if isNamedType typ then checkNamedType typ else checkCompositeType typ)"
| "checkCompositeType (RType n p s ms (ArrayS e)) = isExportedType e"
| "checkCompositeType (RType n p s ms (SliceS e)) = isExportedType e"
| "checkCompositeType (RType n p s ms (ChanS e)) = isExportedType e"
| "checkCompositeType (RType n p s ms (PointerS e)) = isExportedType e"
| "checkCompositeType (RType n p s ms (MapS k e)) =
     (case isExportedType k of Some err \<Rightarrow> Some err | None \<Rightarrow> isExportedType e)"
| "checkCompositeType (RType n p s ms (FuncS ins outs)) =
     (case checkTypes ins of Some err \<Rightarrow> Some err | None \<Rightarrow> checkTypes outs)"
| "checkCompositeType (RType n p s ms (PrimS k)) = None"
| "checkCompositeType (RType n p s ms StructS) = None"
| "checkCompositeType (RType n p s ms InterfaceS) = None"
| "checkTypes [] = None"
| "checkTypes (t # ts) =
     (case isExportedType t of Some err \<Rightarrow> Some err | None \<Rightarrow> checkTypes ts)"

declare isExportedType.simps [simp del]






text \<open>Example types: \<^verbatim>\<open>string\<close>, an unexported struct \<^verbatim>\<open>foo\<close>, the exported named slice
  \<^verbatim>\<open>type Foos []foo\<close>, and the unnamed types \<^verbatim>\<open>[]foo\<close> and \<^verbatim>\<open>map[string]Foos\<close>.\<close>

definition stringT :: rtype where
  "stringT = RType ''string'' [] ''string'' [] (PrimS String)"





section \<open>Values, descriptors and the container\<close>

text \<open>
  A \<^verbatim>\<open>reflect.Value\<close>, by its kind and content. \<open>Zero\<close> is the zero Value
  \<^verbatim>\<open>reflect.Value{}\<close>, of kind Invalid. The dynamic assignability checks that
  \<^verbatim>\<open>reflect.Append\<close> makes on the element type are not modelled.
\<close>

datatype rvalue =
    Zero
  | BoolV bool
  | IntV int
  | StringV string
  | PrimV prim int
  | StructV "rvalue list"
  | PointerV nat
  | SliceV "rvalue list"
  | ArrayV "rvalue list"
  | MapV "(rvalue \<times> rvalue) list"
  | FuncV nat
  | ChanV nat
  | InterfaceV rvalue

fun valueKind :: "rvalue \<Rightarrow> kind" where
  "valueKind Zero = Invalid"
| "valueKind (BoolV b) = Prim Bool"
| "valueKind (IntV i) = Prim IntK"
| "valueKind (StringV s) = Prim String"
| "valueKind (PrimV k i) = Prim k"
| "valueKind (StructV fs) = Struct"
| "valueKind (PointerV a) = Pointer"
| "valueKind (SliceV vs) = Slice"
| "valueKind (ArrayV vs) = Array"
| "valueKind (MapV kvs) = Map"
| "valueKind (FuncV a) = Func"
| "valueKind (ChanV a) = Chan"
| "valueKind (InterfaceV v) = Interface"

text \<open>\<^verbatim>\<open>reflect.Append(slice, v)\<close>; it panics (\<open>None\<close>) when the first argument is not a
  slice.\<close>

fun Append :: "rvalue \<Rightarrow> rvalue \<Rightarrow> rvalue option" where
  "Append (SliceV xs) v = Some (SliceV (xs @ [v]))"
| "Append _ v = None"

text \<open>
  Modelled from the spec: the struct \<^verbatim>\<open>moduleKey\<close> (the ScopeKey of the spec, a name), and
  the descriptor types \<^verbatim>\<open>providerInput\<close>, \<^verbatim>\<open>providerOutput\<close> and
  \<^verbatim>\<open>providerDescriptor\<close> (the Descriptor of the spec: location, ordered inputs each
  with a type and an optional flag, ordered output types, and the callable), whose
  declarations are not in the sources at hand. A \<^verbatim>\<open>*moduleKey\<close> is a
  \<open>moduleKey option\<close>, \<open>None\<close> the nil pointer of the global scope; the code reads
  only the name of a key. The callable is a pure function from the input values to an
  error or the output values.
\<close>

datatype moduleKey = ModuleKey (mkName: string)

record providerInput =
  Type :: rtype
  Optional :: bool

record providerOutput =
  OutType :: rtype

record providerDescriptor =
  Inputs :: "providerInput list"
  Outputs :: "providerOutput list"
  Fn :: "rvalue list \<Rightarrow> error + rvalue list"
  Location :: location

text \<open>
  Resolvers are objects on the heap, held in the registry through the interface
  \<^verbatim>\<open>resolver\<close>. A resolver value is the nil interface or a pointer, an address into the
  object store of its variant; a \<^verbatim>\<open>sliceGroupResolver\<close> holds only the pointer to the
  \<^verbatim>\<open>groupResolver\<close> it wraps, so it is given by that address. The direct resolver
  \<open>SimpleResolver\<close> is declared outside the sources at hand and is described with the
  other parts modelled from the spec below. Graph nodes and logging belong to the debug sink
  and are left out everywhere.
\<close>

datatype resolver =
    NilResolver
  | GroupResolver nat
  | SliceGroupResolver nat
  | SimpleResolver nat

record groupResolver =
  gtyp :: rtype
  sliceType :: rtype
  idxsInValues :: "int list"
  providers :: "nat list"
  resolved :: bool
  "values" :: rvalue

text \<open>
  Modelled from the spec: the direct resolver and its provider node (\<^verbatim>\<open>simpleResolver\<close>,
  \<^verbatim>\<open>simpleProvider\<close>), which are not in the sources at hand: a direct resolver wraps one
  output of one descriptor, and the descriptor is invoked at most once, its outputs cached
  for the lifetime of the container.
\<close>

record simpleProvider =
  provider :: providerDescriptor
  moduleKey :: "moduleKey option"
  called :: bool
  pvalues :: "rvalue list"

record simpleResolver =
  node :: nat
  idxInValues :: int
  sresolved :: bool
  styp :: rtype
  svalue :: rvalue

record invoker =
  fn :: providerDescriptor
  modKey :: "moduleKey option"

record resolveFrame =
  loc :: location
  ftyp :: rtype

record interfaceBinding =
  interfaceName :: string
  implTypeName :: string
  bmoduleKey :: "moduleKey option"
  bresolver :: resolver

text \<open>
  The container. The registry \<^verbatim>\<open>resolvers\<close> is a Go map that the code iterates, so it
  is an association list with distinct keys; the order in which Go walks a map is not
  determined, and the functions that iterate take the walk as a parameter \<open>ord\<close> (a
  rearrangement of the entries). The other maps are only read and written by key. The
  caller map is keyed by \<^verbatim>\<open>Location\<close>, compared here by content.
  \<^verbatim>\<open>moduleKeyContext\<close> is the interning table of module keys by name. The last three
  fields are the object stores that the pointers point into and the next free address; a
  pointer to no object is followed by a panic.
\<close>

record container =
  resolvers :: "(string \<times> resolver) list"
  interfaceBindings :: "string \<rightharpoonup> interfaceBinding"
  invokers :: "invoker list"
  moduleKeyContext :: "string \<rightharpoonup> moduleKey"
  resolveStack :: "resolveFrame list"
  callerStack :: "location list"
  callerMap :: "location \<rightharpoonup> bool"
  groups :: "nat \<rightharpoonup> groupResolver"
  simples :: "nat \<rightharpoonup> simpleResolver"
  nodes :: "nat \<rightharpoonup> simpleProvider"
  nextAddr :: nat

definition ErrCyclicDependency :: error where
  "ErrCyclicDependency = New ''cyclic dependency detected''"

definition ErrInvalidManyPerContainerType :: error where
  "ErrInvalidManyPerContainerType = New ''invalid many-per-container type usage''"

definition ErrEmptyModuleName :: error where
  "ErrEmptyModuleName = New ''expected non-empty module name''"


definition nilDeref :: error where
  "nilDeref = Panic ''invalid memory address or nil pointer dereference''"

definition indexOutOfRange :: error where
  "indexOutOfRange = Panic ''index out of range''"

definition newContainer :: container where
  "newContainer =
     \<lparr> resolvers = [], interfaceBindings = Map.empty, invokers = [],
       moduleKeyContext = Map.empty, resolveStack = [], callerStack = [],
       callerMap = Map.empty, groups = Map.empty, simples = Map.empty, nodes = Map.empty,
       nextAddr = 0 \<rparr>"

subsection \<open>Provider resolution (container.go)\<close>

text \<open>
  \<^verbatim>\<open>c.resolve\<close> is not in the sources at hand; \<^verbatim>\<open>call\<close> and \<^verbatim>\<open>resolveInputs\<close> take
  it as the parameter \<open>rslv\<close>. A function of the container returns its result with the
  container it leaves behind.
\<close>

type_synonym resolveFn =
  "providerInput \<Rightarrow> moduleKey option \<Rightarrow> location \<Rightarrow> container \<Rightarrow> (error + rvalue) \<times> container"

definition checkCyclicDependency :: "container \<Rightarrow> location \<Rightarrow> error option" where
  "checkCyclicDependency c l =
     (if callerMap c l = Some True
      then Some (Wrapf ErrCyclicDependency ''%s -> %s''
                   [ArgString (locationName l), ArgString (locationName l)])
      else None)"

definition pushCaller :: "container \<Rightarrow> location \<Rightarrow> container" where
  "pushCaller c l =
     c\<lparr> callerMap := (callerMap c)(l \<mapsto> True), callerStack := callerStack c @ [l] \<rparr>"

text \<open>\<^verbatim>\<open>popCaller\<close>: the delete, then the re-slicing of the stack to one element less,
  which panics on the empty stack.\<close>

definition popCaller :: "container \<Rightarrow> location \<Rightarrow> error option \<times> container" where
  "popCaller c l =
     (let c1 = c\<lparr> callerMap := (callerMap c)(l := None) \<rparr>
      in if callerStack c1 = [] then (Some (Panic ''slice bounds out of range''), c1)
         else (None, c1\<lparr> callerStack := butlast (callerStack c1) \<rparr>))"

fun resolveInputs ::
  "resolveFn \<Rightarrow> providerInput list \<Rightarrow> moduleKey option \<Rightarrow> location \<Rightarrow> container
     \<Rightarrow> (error + rvalue list) \<times> container"
where
  "resolveInputs rslv [] key l c = (Inr [], c)"
| "resolveInputs rslv (i # ins) key l c =
     (case rslv i key l c of
        (Inl err, c1) \<Rightarrow> (Inl err, c1)
      | (Inr val, c1) \<Rightarrow>
          (case resolveInputs rslv ins key l c1 of
             (Inl err, c2) \<Rightarrow> (Inl err, c2)
           | (Inr vals, c2) \<Rightarrow> (Inr (val # vals), c2)))"

text \<open>
  \<^verbatim>\<open>call\<close>. The body after \<^verbatim>\<open>pushCaller\<close> is \<open>callBody\<close>; the deferred
  \<^verbatim>\<open>popCaller\<close> runs on each of its returns, and a panic of the deferred call replaces
  the result.
\<close>

definition callBody ::
  "resolveFn \<Rightarrow> providerDescriptor \<Rightarrow> moduleKey option \<Rightarrow> container
     \<Rightarrow> (error + rvalue list) \<times> container"
where
  "callBody rslv p key c =
     (case resolveInputs rslv (Inputs p) key (Location p) c of
        (Inl err, c1) \<Rightarrow> (Inl err, c1)
      | (Inr inVals, c1) \<Rightarrow>
          (case Fn p inVals of
             Inl err \<Rightarrow>
               (Inl (Wrapf err ''error calling provider %s'' [ArgLocation (Location p)]), c1)
           | Inr out \<Rightarrow> (Inr out, c1)))"

definition call ::
  "resolveFn \<Rightarrow> providerDescriptor \<Rightarrow> moduleKey option \<Rightarrow> container
     \<Rightarrow> (error + rvalue list) \<times> container"
where
  "call rslv p key c =
     (case checkCyclicDependency c (Location p) of
        Some err \<Rightarrow> (Inl err, c)
      | None \<Rightarrow>
          (case callBody rslv p key (pushCaller c (Location p)) of
             (r, c1) \<Rightarrow>
               (case popCaller c1 (Location p) of
                  (Some pan, c2) \<Rightarrow> (Inl pan, c2)
                | (None, c2) \<Rightarrow> (r, c2))))"

subsection \<open>The registry and interface bindings (container.go)\<close>

definition fullyQualifiedTypeName :: "rtype \<Rightarrow> string" where
  "fullyQualifiedTypeName t =
     (let pkgType =
            (if Kind t = Pointer \<or> Kind t = Slice \<or> Kind t = Map \<or> Kind t = Array
             then (case Elem t of Some e \<Rightarrow> e | None \<Rightarrow> t) else t);
          pkgPath = PkgPath pkgType
      in if pkgPath = [] then typeString t else pkgPath @ ''/'' @ typeString t)"

definition bindingKeyFromTypeName :: "string \<Rightarrow> moduleKey option \<Rightarrow> string" where
  "bindingKeyFromTypeName typeName key =
     (case key of None \<Rightarrow> typeName @ '';'' | Some k \<Rightarrow> typeName @ '';'' @ mkName k)"

definition bindingKeyFromType :: "rtype \<Rightarrow> moduleKey option \<Rightarrow> string" where
  "bindingKeyFromType t key = bindingKeyFromTypeName (fullyQualifiedTypeName t) key"

definition addBinding :: "container \<Rightarrow> interfaceBinding \<Rightarrow> container" where
  "addBinding c p =
     c\<lparr> interfaceBindings :=
          (interfaceBindings c)
            (bindingKeyFromTypeName (interfaceName p) (bmoduleKey p) \<mapsto> p) \<rparr>"

definition addResolver :: "container \<Rightarrow> rtype \<Rightarrow> resolver \<Rightarrow> container" where
  "addResolver c t r =
     c\<lparr> resolvers := AList.update (fullyQualifiedTypeName t) r (resolvers c) \<rparr>"

text \<open>The two results of a map read: the value, nil when the key is missing, and the
  found flag.\<close>

definition resolverByTypeName :: "container \<Rightarrow> string \<Rightarrow> resolver \<times> bool" where
  "resolverByTypeName c typeName =
     (case map_of (resolvers c) typeName of None \<Rightarrow> (NilResolver, False)
      | Some res \<Rightarrow> (res, True))"

definition resolverByType :: "container \<Rightarrow> rtype \<Rightarrow> resolver \<times> bool" where
  "resolverByType c t = resolverByTypeName c (fullyQualifiedTypeName t)"

text \<open>\<^verbatim>\<open>r.getType()\<close>: both group resolvers answer \<^verbatim>\<open>g.sliceType\<close> (group.go), the direct
  resolver the type of the output it wraps. A call on the nil resolver or through a pointer
  to no object panics (\<open>None\<close>).\<close>

fun getType :: "container \<Rightarrow> resolver \<Rightarrow> rtype option" where
  "getType c NilResolver = None"
| "getType c (GroupResolver a) = map_option sliceType (groups c a)"
| "getType c (SliceGroupResolver a) = map_option sliceType (groups c a)"
| "getType c (SimpleResolver a) = map_option styp (simples c a)"

text \<open>
  \<^verbatim>\<open>findImplementingTypes\<close>. The result map \<^verbatim>\<open>matches\<close>, keyed by type with the type as
  value, is the list of its distinct keys; \<open>None\<close> is a panic of \<^verbatim>\<open>getType\<close> or
  \<^verbatim>\<open>Implements\<close>.
\<close>

definition putMatch :: "rtype list \<Rightarrow> rtype \<Rightarrow> rtype list" where
  "putMatch matches t = (if t \<in> set matches then matches else matches @ [t])"

fun collectMatches ::
  "container \<Rightarrow> rtype \<Rightarrow> (string \<times> resolver) list \<Rightarrow> rtype list \<Rightarrow> rtype list option"
where
  "collectMatches c interfaceType [] matches = Some matches"
| "collectMatches c interfaceType ((k, r) # rs) matches =
     (case getType c r of
        None \<Rightarrow> None
      | Some resolverType \<Rightarrow>
          if Kind resolverType \<noteq> Interface
          then (case Implements resolverType interfaceType of
                  None \<Rightarrow> None
                | Some impl \<Rightarrow>
                    collectMatches c interfaceType rs
                      (if impl then putMatch matches resolverType else matches))
          else collectMatches c interfaceType rs matches)"

type_synonym walk = "(string \<times> resolver) list \<Rightarrow> (string \<times> resolver) list"

definition findImplementingTypes :: "walk \<Rightarrow> container \<Rightarrow> rtype \<Rightarrow> rtype list option" where
  "findImplementingTypes ord c interfaceType =
     collectMatches c interfaceType (ord (resolvers c)) []"

text \<open>\<^verbatim>\<open>newErrMultipleImplicitInterfaceBindings\<close> (errors.go) lists the keys of the match
  map.\<close>

definition newErrMultipleImplicitInterfaceBindings :: "rtype \<Rightarrow> rtype list \<Rightarrow> error" where
  "newErrMultipleImplicitInterfaceBindings iface matches =
     ErrMultipleImplicitInterfaceBindings iface matches"

definition resolveInterfaceType ::
  "walk \<Rightarrow> container \<Rightarrow> rtype \<Rightarrow> (error + resolver) \<times> container"
where
  "resolveInterfaceType ord c t =
     (if Kind t \<noteq> Interface then (Inr NilResolver, c)
      else (case findImplementingTypes ord c t of
              None \<Rightarrow> (Inl nilDeref, c)
            | Some [] \<Rightarrow> (Inr NilResolver, c)
            | Some [resolverType] \<Rightarrow>
                (let res = fst (resolverByType c resolverType)
                 in (Inr res, addResolver c t res))
            | Some matches \<Rightarrow>
                (Inl (newErrMultipleImplicitInterfaceBindings t matches), c)))"

subsection \<open>Many-per-container types (group.go)\<close>

definition manyPerContainerTypeType :: rtype where
  "manyPerContainerTypeType =
     RType ''ManyPerContainerType'' ''cosmossdk.io/depinject''
       ''depinject.ManyPerContainerType'' [''IsManyPerContainerType''] InterfaceS"

definition isManyPerContainerType :: "rtype \<Rightarrow> bool" where
  "isManyPerContainerType t = (Implements t manyPerContainerTypeType = Some True)"

definition isManyPerContainerSliceType :: "rtype \<Rightarrow> bool" where
  "isManyPerContainerSliceType t =
     (Kind t = Slice \<and> (case Elem t of Some e \<Rightarrow> isManyPerContainerType e | None \<Rightarrow> False))"

text \<open>
  Modelled from the spec: \<^verbatim>\<open>isOnePerModuleMapType\<close>, which is not in the sources at hand:
  the scope-map-of-T shape, a mapping from scope name to a value of a one-per-module
  type. The marker method is the one the tests of the package declare.
\<close>

definition onePerModuleTypeType :: rtype where
  "onePerModuleTypeType =
     RType ''OnePerModuleType'' ''cosmossdk.io/depinject''
       ''depinject.OnePerModuleType'' [''IsOnePerModuleType''] InterfaceS"

definition isOnePerModuleMapType :: "rtype \<Rightarrow> bool" where
  "isOnePerModuleMapType t =
     (case shape t of
        MapS k e \<Rightarrow> Kind k = Prim String \<and> Implements e onePerModuleTypeType = Some True
      | _ \<Rightarrow> False)"

definition getElementType :: "container \<Rightarrow> rtype \<Rightarrow> rtype" where
  "getElementType c t =
     (if isManyPerContainerSliceType t \<or> isOnePerModuleMapType t
      then (case Elem t of Some e \<Rightarrow> e | None \<Rightarrow> t) else t)"

text \<open>
  \<^verbatim>\<open>getResolver\<close>. \<^verbatim>\<open>getExplicitResolver\<close> and \<^verbatim>\<open>createContainerResolver\<close> are not in
  the sources at hand and are the parameters \<open>explicit\<close> and \<open>create\<close>. No resolver is the
  nil resolver.
\<close>

type_synonym explicitFn =
  "container \<Rightarrow> rtype \<Rightarrow> moduleKey option \<Rightarrow> (error + resolver) \<times> container"

type_synonym createFn =
  "container \<Rightarrow> rtype \<Rightarrow> rtype \<Rightarrow> (error + resolver) \<times> container"

definition getResolver ::
  "explicitFn \<Rightarrow> createFn \<Rightarrow> walk \<Rightarrow> container \<Rightarrow> rtype \<Rightarrow> moduleKey option
     \<Rightarrow> (error + resolver) \<times> container"
where
  "getResolver explicit create ord c t key =
     (case explicit c t key of
        (Inl err, c1) \<Rightarrow> (Inl err, c1)
      | (Inr r, c1) \<Rightarrow>
          if r \<noteq> NilResolver then (Inr r, c1)
          else (case resolverByType c1 t of
                  (r1, True) \<Rightarrow> (Inr r1, c1)
                | (r1, False) \<Rightarrow>
                    (let elemType = getElementType c1 t
                     in if elemType = t then resolveInterfaceType ord c1 t
                        else create c1 elemType t)))"

text \<open>
  The group resolver. \<^verbatim>\<open>provider.resolveValues(c)\<close> of a provider node is not in the
  sources at hand and is the parameter \<open>pv\<close>, applied to the address of the node.
\<close>

type_synonym resolveValuesFn =
  "nat \<Rightarrow> container \<Rightarrow> (error + rvalue list) \<times> container"

fun appendSlice :: "rvalue \<Rightarrow> rvalue list \<Rightarrow> rvalue option" where
  "appendSlice slice [] = Some slice"
| "appendSlice slice (v # vs) =
     (case Append slice v of None \<Rightarrow> None | Some slice1 \<Rightarrow> appendSlice slice1 vs)"

fun appendValue :: "rvalue \<Rightarrow> rvalue \<Rightarrow> rvalue option" where
  "appendValue slice (SliceV vs) = appendSlice slice vs"
| "appendValue slice v = Append slice v"

text \<open>
  The loop of \<^verbatim>\<open>resolveValues\<close> over \<^verbatim>\<open>g.providers\<close>, from index \<open>i\<close> with the slice
  built so far; \<^verbatim>\<open>g.idxsInValues[i]\<close> and \<^verbatim>\<open>values[...]\<close> panic out of range.
\<close>

fun resolveValuesLoop ::
  "resolveValuesFn \<Rightarrow> nat \<Rightarrow> nat list \<Rightarrow> nat \<Rightarrow> rvalue \<Rightarrow> container
     \<Rightarrow> (error + rvalue) \<times> container"
where
  "resolveValuesLoop pv a [] i result c = (Inr result, c)"
| "resolveValuesLoop pv a (p # ps) i result c =
     (case pv p c of
        (Inl err, c1) \<Rightarrow> (Inl err, c1)
      | (Inr vals, c1) \<Rightarrow>
          (case groups c1 a of
             None \<Rightarrow> (Inl nilDeref, c1)
           | Some g \<Rightarrow>
               if i \<ge> length (idxsInValues g) then (Inl indexOutOfRange, c1)
               else (let k = idxsInValues g ! i
                     in if k < 0 \<or> k \<ge> int (length vals) then (Inl indexOutOfRange, c1)
                        else (case appendValue result (vals ! nat k) of
                                None \<Rightarrow> (Inl (Panic ''reflect.Append of a non-slice''), c1)
                              | Some result1 \<Rightarrow>
                                  resolveValuesLoop pv a ps (Suc i) result1 c1))))"

definition resolveValues ::
  "resolveValuesFn \<Rightarrow> nat \<Rightarrow> container \<Rightarrow> error option \<times> container"
where
  "resolveValues pv a c =
     (case groups c a of
        None \<Rightarrow> (Some nilDeref, c)
      | Some g \<Rightarrow>
          (case resolveValuesLoop pv a (providers g) 0 (SliceV []) c of
             (Inl err, c1) \<Rightarrow> (Some err, c1)
           | (Inr result, c1) \<Rightarrow>
               (case groups c1 a of
                  None \<Rightarrow> (Some nilDeref, c1)
                | Some g1 \<Rightarrow>
                    (None, c1\<lparr> groups :=
                       (groups c1)(a \<mapsto> g1\<lparr> resolved := True, values := result \<rparr>) \<rparr>))))"

text \<open>\<^verbatim>\<open>sliceGroupResolver.resolve\<close>, on the group object at address \<open>a\<close>, and
  \<^verbatim>\<open>groupResolver.resolve\<close>, which only reads its receiver \<open>g\<close>.\<close>

definition sliceGroupResolver_resolve ::
  "resolveValuesFn \<Rightarrow> nat \<Rightarrow> container \<Rightarrow> moduleKey option \<Rightarrow> location
     \<Rightarrow> (error + rvalue) \<times> container"
where
  "sliceGroupResolver_resolve pv a c key caller =
     (case groups c a of
        None \<Rightarrow> (Inl nilDeref, c)
      | Some g \<Rightarrow>
          if \<not> resolved g
          then (case resolveValues pv a c of
                  (Some err, c1) \<Rightarrow> (Inl err, c1)
                | (None, c1) \<Rightarrow>
                    (case groups c1 a of
                       None \<Rightarrow> (Inl nilDeref, c1)
                     | Some g1 \<Rightarrow> (Inr (values g1), c1)))
          else (Inr (values g), c))"

definition groupResolver_resolve ::
  "groupResolver \<Rightarrow> container \<Rightarrow> moduleKey option \<Rightarrow> location
     \<Rightarrow> (error + rvalue) \<times> container"
where
  "groupResolver_resolve g c key caller =
     (Inl (Wrapf ErrInvalidManyPerContainerType
        ''%v is a many-per-container type and cannot be used as an input value, use %v instead''
        [ArgType (gtyp g), ArgType (sliceType g)]), c)"

definition groupResolver_addNode :: "nat \<Rightarrow> nat \<Rightarrow> int \<Rightarrow> container \<Rightarrow> error option \<times> container"
where
  "groupResolver_addNode a p idx c =
     (case groups c a of
        None \<Rightarrow> (Some nilDeref, c)
      | Some g \<Rightarrow>
          (None, c\<lparr> groups := (groups c)(a \<mapsto>
             g\<lparr> providers := providers g @ [p], idxsInValues := idxsInValues g @ [idx] \<rparr>) \<rparr>))"

definition newGroupResolver :: "rtype \<Rightarrow> groupResolver" where
  "newGroupResolver t =
     \<lparr> gtyp = t,
       sliceType = RType [] [] (''[]'' @ typeString t) [] (SliceS t),
       idxsInValues = [], providers = [], resolved = False, values = Zero \<rparr>"

subsection \<open>Configuration (config.go)\<close>

text \<open>
  A \<^verbatim>\<open>Config\<close> is a function that applies itself to the container and returns an error
  or nil. The providers and invokers handed to the configuration are Go function values; the
  extraction of their descriptors (\<^verbatim>\<open>extractProviderDescriptor\<close>,
  \<^verbatim>\<open>extractInvokerDescriptor\<close>), \<^verbatim>\<open>addInvoker\<close> and \<^verbatim>\<open>supply\<close> are not in the
  sources at hand and are parameters; \<^verbatim>\<open>addNode\<close>, defined below, is passed in the same
  way, as \<open>addn\<close>.
\<close>

type_synonym Config = "container \<Rightarrow> error option \<times> container"

type_synonym 'f extractFn = "'f \<Rightarrow> error + providerDescriptor"

type_synonym addNodeFn =
  "container \<Rightarrow> providerDescriptor \<Rightarrow> moduleKey option \<Rightarrow> error option \<times> container"

text \<open>
  Modelled from the spec: \<^verbatim>\<open>createOrGetModuleKey\<close> of the module key context, which is
  not in the sources at hand: a key is created once per distinct name and thereafter
  returned as the same object.
\<close>

definition createOrGetModuleKey :: "container \<Rightarrow> string \<Rightarrow> moduleKey \<times> container" where
  "createOrGetModuleKey c moduleName =
     (case moduleKeyContext c moduleName of
        Some k \<Rightarrow> (k, c)
      | None \<Rightarrow>
          (ModuleKey moduleName,
           c\<lparr> moduleKeyContext := (moduleKeyContext c)(moduleName \<mapsto> ModuleKey moduleName) \<rparr>))"

fun provide ::
  "'f extractFn \<Rightarrow> addNodeFn \<Rightarrow> container \<Rightarrow> moduleKey option \<Rightarrow> 'f list
     \<Rightarrow> error option \<times> container"
where
  "provide extract addn ctr key [] = (None, ctr)"
| "provide extract addn ctr key (p # ps) =
     (case extract p of
        Inl err \<Rightarrow> (Some (WithStack err), ctr)
      | Inr desc \<Rightarrow>
          (case addn ctr desc key of
             (Some err, ctr1) \<Rightarrow> (Some (WithStack err), ctr1)
           | (None, ctr1) \<Rightarrow> provide extract addn ctr1 key ps))"

fun invoke ::
  "'f extractFn \<Rightarrow> addNodeFn \<Rightarrow> container \<Rightarrow> moduleKey option \<Rightarrow> 'f list
     \<Rightarrow> error option \<times> container"
where
  "invoke extract addInvoker ctr key [] = (None, ctr)"
| "invoke extract addInvoker ctr key (i # is) =
     (case extract i of
        Inl err \<Rightarrow> (Some (WithStack err), ctr)
      | Inr desc \<Rightarrow>
          (case addInvoker ctr desc key of
             (Some err, ctr1) \<Rightarrow> (Some (WithStack err), ctr1)
           | (None, ctr1) \<Rightarrow> invoke extract addInvoker ctr1 key is))"

definition bindInterface ::
  "container \<Rightarrow> string \<Rightarrow> string \<Rightarrow> string \<Rightarrow> error option \<times> container"
where
  "bindInterface ctr inTypeName outTypeName moduleName =
     (let mk = (if moduleName \<noteq> [] then Some (ModuleKey moduleName) else None)
      in (None, addBinding ctr
            \<lparr> interfaceName = inTypeName, implTypeName = outTypeName,
              bmoduleKey = mk, bresolver = NilResolver \<rparr>))"

definition Provide :: "'f extractFn \<Rightarrow> addNodeFn \<Rightarrow> 'f list \<Rightarrow> Config" where
  "Provide extract addn ps = (\<lambda>ctr. provide extract addn ctr None ps)"

definition ProvideInModule :: "'f extractFn \<Rightarrow> addNodeFn \<Rightarrow> string \<Rightarrow> 'f list \<Rightarrow> Config" where
  "ProvideInModule extract addn moduleName ps =
     (\<lambda>ctr. if moduleName = [] then (Some ErrEmptyModuleName, ctr)
            else (case createOrGetModuleKey ctr moduleName of
                    (k, ctr1) \<Rightarrow> provide extract addn ctr1 (Some k) ps))"

definition Invoke :: "'f extractFn \<Rightarrow> addNodeFn \<Rightarrow> 'f list \<Rightarrow> Config" where
  "Invoke extract addInvoker is = (\<lambda>ctr. invoke extract addInvoker ctr None is)"

definition InvokeInModule :: "'f extractFn \<Rightarrow> addNodeFn \<Rightarrow> string \<Rightarrow> 'f list \<Rightarrow> Config" where
  "InvokeInModule extract addInvoker moduleName is =
     (\<lambda>ctr. if moduleName = [] then (Some ErrEmptyModuleName, ctr)
            else (case createOrGetModuleKey ctr moduleName of
                    (k, ctr1) \<Rightarrow> invoke extract addInvoker ctr1 (Some k) is))"

definition BindInterface :: "string \<Rightarrow> string \<Rightarrow> Config" where
  "BindInterface inTypeName outTypeName =
     (\<lambda>ctr. bindInterface ctr inTypeName outTypeName [])"

definition BindInterfaceInModule :: "string \<Rightarrow> string \<Rightarrow> string \<Rightarrow> Config" where
  "BindInterfaceInModule moduleName inTypeName outTypeName =
     (\<lambda>ctr. bindInterface ctr inTypeName outTypeName moduleName)"

definition Error :: "error \<Rightarrow> Config" where
  "Error err = (\<lambda>ctr. (Some (WithStack err), ctr))"

fun applyConfigs :: "Config list \<Rightarrow> Config" where
  "applyConfigs [] ctr = (None, ctr)"
| "applyConfigs (cfg # cfgs) ctr =
     (case cfg ctr of
        (Some err, ctr1) \<Rightarrow> (Some (WithStack err), ctr1)
      | (None, ctr1) \<Rightarrow> applyConfigs cfgs ctr1)"

definition Configs :: "Config list \<Rightarrow> Config" where
  "Configs configs = applyConfigs configs"

section \<open>Registration and the build\<close>

subsection \<open>Adding provider nodes (container.go)\<close>

text \<open>
  \<^verbatim>\<open>addNode\<close>, \<^verbatim>\<open>validateProviderInputs\<close> and \<^verbatim>\<open>addInputTypeToGraph\<close>. Of the last one
  only the call of \<^verbatim>\<open>getResolver\<close> acts on the container; the rest draws the graph.
  \<^verbatim>\<open>validateInput\<close>, \<^verbatim>\<open>hasModuleKeyParam\<close>, \<^verbatim>\<open>addSimpleNode\<close> and
  \<^verbatim>\<open>addModuleScopedNode\<close> are not in the sources at hand and are parameters, and so is
  the resolver lookup \<open>getRes\<close>, which stands for \<^verbatim>\<open>getResolver\<close> with its own
  parameters filled in. The first result of \<^verbatim>\<open>addNode\<close>, which \<^verbatim>\<open>provide\<close> drops, is
  left out.
\<close>

type_synonym getResFn =
  "container \<Rightarrow> rtype \<Rightarrow> moduleKey option \<Rightarrow> (error + resolver) \<times> container"

type_synonym validateFn = "container \<Rightarrow> rtype \<Rightarrow> moduleKey option \<Rightarrow> error option"

definition addInputTypeToGraph ::
  "getResFn \<Rightarrow> container \<Rightarrow> rtype \<Rightarrow> providerDescriptor \<Rightarrow> moduleKey option
     \<Rightarrow> error option \<times> container"
where
  "addInputTypeToGraph getRes c t p key =
     (case getRes c t key of (Inl err, c1) \<Rightarrow> (Some err, c1) | (Inr vr, c1) \<Rightarrow> (None, c1))"

fun validateInputsLoop ::
  "validateFn \<Rightarrow> getResFn \<Rightarrow> container \<Rightarrow> providerInput list \<Rightarrow> providerDescriptor
     \<Rightarrow> moduleKey option \<Rightarrow> error option \<times> container"
where
  "validateInputsLoop validateInput getRes c [] p key = (None, c)"
| "validateInputsLoop validateInput getRes c (i # ins) p key =
     (case validateInput c (Type i) key of
        Some err \<Rightarrow> (Some err, c)
      | None \<Rightarrow>
          (case addInputTypeToGraph getRes c (Type i) p key of
             (Some err, c1) \<Rightarrow> (Some err, c1)
           | (None, c1) \<Rightarrow> validateInputsLoop validateInput getRes c1 ins p key))"

definition validateProviderInputs ::
  "validateFn \<Rightarrow> getResFn \<Rightarrow> container \<Rightarrow> providerDescriptor \<Rightarrow> moduleKey option
     \<Rightarrow> error option \<times> container"
where
  "validateProviderInputs validateInput getRes c p key =
     validateInputsLoop validateInput getRes c (Inputs p) p key"

definition addNode ::
  "validateFn \<Rightarrow> getResFn \<Rightarrow> (providerDescriptor \<Rightarrow> bool) \<Rightarrow> addNodeFn
     \<Rightarrow> (container \<Rightarrow> providerDescriptor \<Rightarrow> error option \<times> container) \<Rightarrow> addNodeFn"
where
  "addNode validateInput getRes hasModuleKeyParam addSimpleNode addModuleScopedNode c p key =
     (case validateProviderInputs validateInput getRes c p key of
        (Some err, c1) \<Rightarrow> (Some err, c1)
      | (None, c1) \<Rightarrow>
          if \<not> hasModuleKeyParam p then addSimpleNode c1 p key
          else addModuleScopedNode c1 p)"

subsection \<open>The entry point (inject.go)\<close>

definition ErrProviderRegistration :: error where
  "ErrProviderRegistration = Errorf ''failed to register providers'' []"

text \<open>
  \<^verbatim>\<open>Inject\<close> by way of \<^verbatim>\<open>runInjection\<close>, \<^verbatim>\<open>performInjection\<close> and
  \<^verbatim>\<open>buildContainer\<close>: the configuration is applied to a new container and, when that
  succeeds, the container is built for the requested outputs. The debug configuration only
  logs and draws. \<^verbatim>\<open>container.build\<close> is not in the sources at hand and is the parameter
  \<open>build\<close>; the values it assigns through the output pointers are returned with its
  result.
\<close>

type_synonym buildFn =
  "container \<Rightarrow> location \<Rightarrow> rtype list \<Rightarrow> (error + rvalue list) \<times> container"

definition buildContainer :: "Config \<Rightarrow> buildFn \<Rightarrow> location \<Rightarrow> rtype list \<Rightarrow> error + rvalue list"
where
  "buildContainer config build l outputs =
     (case config newContainer of
        (Some err, c1) \<Rightarrow>
          Inl (Errorf ''%w: %v'' [ArgError ErrProviderRegistration, ArgError err])
      | (None, c1) \<Rightarrow> fst (build c1 l outputs))"

definition Inject :: "Config \<Rightarrow> buildFn \<Rightarrow> location \<Rightarrow> rtype list \<Rightarrow> error + rvalue list"
where
  "Inject containerConfig build l outputs = buildContainer containerConfig build l outputs"

subsection \<open>Parts of the package that are not in the sources at hand\<close>

text \<open>\<^verbatim>\<open>newErrNoTypeForExplicitBindingFound\<close> is in errors.go.\<close>

definition newErrNoTypeForExplicitBindingFound :: "interfaceBinding \<Rightarrow> error" where
  "newErrNoTypeForExplicitBindingFound binding =
     ErrNoTypeForExplicitBindingFound (implTypeName binding) (interfaceName binding)
       (case bmoduleKey binding of Some k \<Rightarrow> mkName k | None \<Rightarrow> [])"

text \<open>
  Modelled from the spec: \<^verbatim>\<open>getExplicitResolver\<close>. An explicit binding for the type and
  the scope is looked up, falling back to the binding of the global scope; the resolver
  bound is the one registered for the implementation type name, and a binding that names
  an implementation that was never registered is an error.
\<close>

definition getExplicitResolver :: explicitFn where
  "getExplicitResolver c t key =
     (case (case interfaceBindings c (bindingKeyFromType t key) of
              Some b \<Rightarrow> Some b
            | None \<Rightarrow> interfaceBindings c (bindingKeyFromType t None)) of
        None \<Rightarrow> (Inr NilResolver, c)
      | Some pref \<Rightarrow>
          (case resolverByTypeName c (implTypeName pref) of
             (res, True) \<Rightarrow> (Inr res, c)
           | (res, False) \<Rightarrow> (Inl (newErrNoTypeForExplicitBindingFound pref), c)))"

text \<open>
  Modelled from the spec: the provider node and the direct resolver. The node invokes its
  descriptor through \<^verbatim>\<open>call\<close>, given as \<open>callf\<close>, at most once and caches the outputs;
  the direct resolver takes the output at its index from the node on the first resolution
  and caches it.
\<close>

type_synonym callFn =
  "providerDescriptor \<Rightarrow> moduleKey option \<Rightarrow> container \<Rightarrow> (error + rvalue list) \<times> container"

definition simpleProvider_resolveValues :: "callFn \<Rightarrow> resolveValuesFn" where
  "simpleProvider_resolveValues callf n c =
     (case nodes c n of
        None \<Rightarrow> (Inl nilDeref, c)
      | Some s \<Rightarrow>
          if \<not> called s
          then (case callf (provider s) (moduleKey s) c of
                  (Inl err, c1) \<Rightarrow> (Inl err, c1)
                | (Inr vals, c1) \<Rightarrow>
                    (case nodes c1 n of
                       None \<Rightarrow> (Inl nilDeref, c1)
                     | Some s1 \<Rightarrow>
                         (Inr vals,
                          c1\<lparr> nodes := (nodes c1)(n \<mapsto> s1\<lparr> called := True, pvalues := vals \<rparr>) \<rparr>)))
          else (Inr (pvalues s), c))"

definition simpleResolver_resolve ::
  "resolveValuesFn \<Rightarrow> nat \<Rightarrow> container \<Rightarrow> moduleKey option \<Rightarrow> location
     \<Rightarrow> (error + rvalue) \<times> container"
where
  "simpleResolver_resolve pv a c key caller =
     (case simples c a of
        None \<Rightarrow> (Inl nilDeref, c)
      | Some s \<Rightarrow>
          if \<not> sresolved s
          then (case pv (node s) c of
                  (Inl err, c1) \<Rightarrow> (Inl err, c1)
                | (Inr vals, c1) \<Rightarrow>
                    if idxInValues s < 0 \<or> idxInValues s \<ge> int (length vals)
                    then (Inl indexOutOfRange, c1)
                    else (case simples c1 a of
                            None \<Rightarrow> (Inl nilDeref, c1)
                          | Some s1 \<Rightarrow>
                              (Inr (vals ! nat (idxInValues s)),
                               c1\<lparr> simples := (simples c1)(a \<mapsto>
                                  s1\<lparr> sresolved := True,
                                      svalue := vals ! nat (idxInValues s) \<rparr>) \<rparr>)))
          else (Inr (svalue s), c))"

text \<open>The method \<^verbatim>\<open>resolve\<close> of the interface \<^verbatim>\<open>resolver\<close>, by the variant of the
  resolver.\<close>

definition resolver_resolve ::
  "resolveValuesFn \<Rightarrow> resolver \<Rightarrow> container \<Rightarrow> moduleKey option \<Rightarrow> location
     \<Rightarrow> (error + rvalue) \<times> container"
where
  "resolver_resolve pv r c key caller =
     (case r of
        NilResolver \<Rightarrow> (Inl nilDeref, c)
      | GroupResolver a \<Rightarrow>
          (case groups c a of
             None \<Rightarrow> (Inl nilDeref, c)
           | Some g \<Rightarrow> groupResolver_resolve g c key caller)
      | SliceGroupResolver a \<Rightarrow> sliceGroupResolver_resolve pv a c key caller
      | SimpleResolver a \<Rightarrow> simpleResolver_resolve pv a c key caller)"

text \<open>
  Modelled from the spec: \<^verbatim>\<open>c.resolve\<close>. The resolver of the input type is looked up
  and asked for the value; an error of the lookup is returned; without a resolver an
  optional input is given the explicit absence (the zero value) and a required one fails
  with the missing-dependency error. Inputs that ask for the identity of the current scope
  are outside this model.
\<close>

definition resolve :: "getResFn \<Rightarrow> resolveValuesFn \<Rightarrow> resolveFn" where
  "resolve getRes pv i key caller c =
     (case getRes c (Type i) key of
        (Inl err, c1) \<Rightarrow> (Inl err, c1)
      | (Inr vr, c1) \<Rightarrow>
          if vr = NilResolver
          then (if Optional i then (Inr Zero, c1)
                else (Inl (MissingDependency (Type i) caller), c1))
          else resolver_resolve pv vr c1 key caller)"

text \<open>
  The recursion of resolution: \<^verbatim>\<open>resolve\<close> asks a resolver, whose provider node runs
  \<^verbatim>\<open>call\<close>, which resolves the inputs of the descriptor. The depth of this nesting is
  bounded by the fuel; at the bound the result is \<open>OutOfFuel\<close>.
\<close>

fun resolveF :: "getResFn \<Rightarrow> nat \<Rightarrow> resolveFn" where
  "resolveF getRes 0 = (\<lambda>i key caller c. (Inl OutOfFuel, c))"
| "resolveF getRes (Suc n) =
     resolve getRes (simpleProvider_resolveValues (call (resolveF getRes n)))"

text \<open>
  Modelled from the spec: \<^verbatim>\<open>container.build\<close>. Each requested output type is resolved in
  order, as a required input of the caller of the build; then the registered invokers are
  run in registration order. Any failure aborts.
\<close>

fun resolveOutputs ::
  "resolveFn \<Rightarrow> rtype list \<Rightarrow> location \<Rightarrow> container \<Rightarrow> (error + rvalue list) \<times> container"
where
  "resolveOutputs res [] l c = (Inr [], c)"
| "resolveOutputs res (t # ts) l c =
     (case res \<lparr> Type = t, Optional = False \<rparr> None l c of
        (Inl err, c1) \<Rightarrow> (Inl err, c1)
      | (Inr v, c1) \<Rightarrow>
          (case resolveOutputs res ts l c1 of
             (Inl err, c2) \<Rightarrow> (Inl err, c2)
           | (Inr vs, c2) \<Rightarrow> (Inr (v # vs), c2)))"

fun runInvokers :: "resolveFn \<Rightarrow> invoker list \<Rightarrow> container \<Rightarrow> error option \<times> container" where
  "runInvokers res [] c = (None, c)"
| "runInvokers res (iv # ivs) c =
     (case call res (fn iv) (modKey iv) c of
        (Inl err, c1) \<Rightarrow> (Some err, c1)
      | (Inr out, c1) \<Rightarrow> runInvokers res ivs c1)"

definition build :: "resolveFn \<Rightarrow> buildFn" where
  "build res c l outputs =
     (case resolveOutputs res outputs l c of
        (Inl err, c1) \<Rightarrow> (Inl err, c1)
      | (Inr vs, c1) \<Rightarrow>
          (case runInvokers res (invokers c1) c1 of
             (Some err, c2) \<Rightarrow> (Inl err, c2)
           | (None, c2) \<Rightarrow> (Inr vs, c2)))"

text \<open>
  Modelled from the spec: \<^verbatim>\<open>validateInput\<close> and \<^verbatim>\<open>addSimpleNode\<close>. Each declared input
  and output type must belong to the public namespace. A descriptor without a
  scope-identity input is registered as the direct provider of each of its output types, a
  second direct resolver for a type being the duplicate-definition error (the description
  of the earlier definition is left empty). The routing of outputs of collection types to
  the group and scoped-map resolvers is outside this model, which is used for direct
  providers only.
\<close>

definition validateInput :: validateFn where
  "validateInput c t key = isExportedType t"

fun addOutputs ::
  "container \<Rightarrow> providerDescriptor \<Rightarrow> nat \<Rightarrow> providerOutput list \<Rightarrow> int
     \<Rightarrow> error option \<times> container"
where
  "addOutputs c p n [] i = (None, c)"
| "addOutputs c p n (out # outs) i =
     (case resolverByType c (OutType out) of
        (existing, True) \<Rightarrow>
          (Some (ErrDuplicateDefinition (OutType out) (Location p) []), c)
      | (existing, False) \<Rightarrow>
          addOutputs
            (addResolver
               (c\<lparr> simples := (simples c)(nextAddr c \<mapsto>
                      \<lparr> node = n, idxInValues = i, sresolved = False, styp = OutType out,
                        svalue = Zero \<rparr>),
                   nextAddr := Suc (nextAddr c) \<rparr>)
               (OutType out) (SimpleResolver (nextAddr c)))
            p n outs (i + 1))"

definition addSimpleNode :: addNodeFn where
  "addSimpleNode c p key =
     (case checkTypes (map OutType (Outputs p)) of
        Some err \<Rightarrow> (Some err, c)
      | None \<Rightarrow>
          addOutputs
            (c\<lparr> nodes := (nodes c)(nextAddr c \<mapsto>
                   \<lparr> provider = p, moduleKey = key, called = False, pvalues = [] \<rparr>),
                nextAddr := Suc (nextAddr c) \<rparr>)
            p (nextAddr c) (Outputs p) 0)"


section \<open>Notions used in the statements\<close>

text \<open>The membership set of the caller map: the locations it maps to \<^verbatim>\<open>true\<close>.\<close>

definition callerSet :: "container \<Rightarrow> location set" where
  "callerSet c = {l. callerMap c l = Some True}"

text \<open>A resolution function leaves the caller stack and the caller set as it found
  them.\<close>

definition preservesCallers :: "resolveFn \<Rightarrow> bool" where
  "preservesCallers rslv = (\<forall>i key l c.
      callerStack (snd (rslv i key l c)) = callerStack c \<and>
      callerSet (snd (rslv i key l c)) = callerSet c)"

text \<open>A step on the container keeps the callers when it leaves the caller stack and the
  caller set of the container it started from.\<close>

definition keepsCallers :: "('r \<times> container) \<Rightarrow> container \<Rightarrow> bool" where
  "keepsCallers x c = (callerStack (snd x) = callerStack c \<and> callerSet (snd x) = callerSet c)"





definition isWalk :: "walk \<Rightarrow> bool" where
  "isWalk ord = (\<forall>xs. set (ord xs) = set xs)"

text \<open>Example data: a location, a provider with one input, two resolution functions, and a
  container holding one group of a many-per-container type \<^verbatim>\<open>Command\<close> with two
  contributing provider nodes, the first yielding the collection \<^verbatim>\<open>["a","b"]\<close> and the
  second the single \<^verbatim>\<open>"c"\<close>.\<close>

definition exLoc :: location where
  "exLoc = \<lparr> name = ''ProvideA'', pkg = ''example.com/app'', filename = ''app.go'', line = 10 \<rparr>"

definition intT :: rtype where
  "intT = RType ''int'' [] ''int'' [] (PrimS IntK)"

definition float64T :: rtype where
  "float64T = RType ''float64'' [] ''float64'' [] (PrimS Float64)"

definition exProvider :: providerDescriptor where
  "exProvider =
     \<lparr> Inputs = [\<lparr> Type = intT, Optional = False \<rparr>],
       Outputs = [\<lparr> OutType = stringT \<rparr>],
       Fn = (\<lambda>vs. Inr [StringV ''out'']),
       Location = exLoc \<rparr>"

definition exFailingProvider :: providerDescriptor where
  "exFailingProvider = exProvider\<lparr> Fn := (\<lambda>vs. Inl (New ''provider failed'')) \<rparr>"

definition okResolve :: resolveFn where
  "okResolve = (\<lambda>i key l c. (Inr (IntV 5), c))"

definition failResolve :: resolveFn where
  "failResolve = (\<lambda>i key l c. (Inl (New ''no resolver''), c))"

definition commandT :: rtype where
  "commandT =
     RType ''Command'' ''example.com/app'' ''app.Command'' [''IsManyPerContainerType''] StructS"

definition exGroup :: groupResolver where
  "exGroup = (newGroupResolver commandT)\<lparr> providers := [0, 1], idxsInValues := [0, 0] \<rparr>"

definition exGroupContainer :: container where
  "exGroupContainer = newContainer\<lparr> groups := [0 \<mapsto> exGroup] \<rparr>"

definition exOuts :: "nat \<Rightarrow> rvalue list" where
  "exOuts p = (if p = 0 then [SliceV [StringV ''a'', StringV ''b'']] else [StringV ''c''])"

definition exPv :: resolveValuesFn where
  "exPv = (\<lambda>p c. (Inr (exOuts p), c))"

definition failPv :: resolveValuesFn where
  "failPv = (\<lambda>p c. (Inl (New ''provider invoked''), c))"

text \<open>Example registry for interface resolution: the interface \<^verbatim>\<open>Duck\<close> and the structs
  \<^verbatim>\<open>Mallard\<close> and \<^verbatim>\<open>Canvasback\<close> of the binding tests, each with a direct resolver.\<close>

definition duckT :: rtype where
  "duckT = RType ''Duck'' ''example.com/app'' ''app.Duck'' [''quack''] InterfaceS"

definition mallardT :: rtype where
  "mallardT = RType ''Mallard'' ''example.com/app'' ''app.Mallard'' [''quack''] StructS"

definition canvasbackT :: rtype where
  "canvasbackT = RType ''Canvasback'' ''example.com/app'' ''app.Canvasback'' [''quack''] StructS"

definition exSimple :: "rtype \<Rightarrow> nat \<Rightarrow> simpleResolver" where
  "exSimple t n = \<lparr> node = n, idxInValues = 0, sresolved = False, styp = t, svalue = Zero \<rparr>"

definition oneDuckContainer :: container where
  "oneDuckContainer =
     newContainer\<lparr> resolvers := [(fullyQualifiedTypeName mallardT, SimpleResolver 0),
                                  (fullyQualifiedTypeName stringT, SimpleResolver 1)],
                    simples := [0 \<mapsto> exSimple mallardT 0, 1 \<mapsto> exSimple stringT 1] \<rparr>"



definition noCreate :: createFn where
  "noCreate = (\<lambda>c e t. (Inr NilResolver, c))"


text \<open>
  Comparing two runs. Two results are the same outcome when they are equal or both are
  errors. Two steps on the container are related when they leave the same container with
  the same outcome; for a step that returns an error or nil, when they leave the same
  container and agree on the result or both fail. Two resolver lookups are in lockstep when
  they are so related on every container, type and key; likewise for resolution functions,
  for \<^verbatim>\<open>call\<close>, for the resolution of provider values, for \<^verbatim>\<open>addNode\<close> and for
  configurations. Two registrations agree when both succeed with the same container or both
  fail. An entry of the registry is bad for the match collection when asking it panics.
\<close>

definition sameOutcome :: "error + 'a \<Rightarrow> error + 'a \<Rightarrow> bool" where
  "sameOutcome r1 r2 = (r1 = r2 \<or> (isl r1 \<and> isl r2))"

definition stepRel :: "(error + 'a) \<times> container \<Rightarrow> (error + 'a) \<times> container \<Rightarrow> bool" where
  "stepRel x y = (snd x = snd y \<and> sameOutcome (fst x) (fst y))"

definition optRel :: "error option \<times> container \<Rightarrow> error option \<times> container \<Rightarrow> bool" where
  "optRel x y = (snd x = snd y \<and> (fst x = fst y \<or> (fst x \<noteq> None \<and> fst y \<noteq> None)))"

definition lockstep :: "getResFn \<Rightarrow> getResFn \<Rightarrow> bool" where
  "lockstep g1 g2 = (\<forall>c t key. stepRel (g1 c t key) (g2 c t key))"

definition resolveRel :: "resolveFn \<Rightarrow> resolveFn \<Rightarrow> bool" where
  "resolveRel r1 r2 = (\<forall>i key l c. stepRel (r1 i key l c) (r2 i key l c))"

definition callRel :: "callFn \<Rightarrow> callFn \<Rightarrow> bool" where
  "callRel f1 f2 = (\<forall>p key c. stepRel (f1 p key c) (f2 p key c))"

definition pvRel :: "resolveValuesFn \<Rightarrow> resolveValuesFn \<Rightarrow> bool" where
  "pvRel p1 p2 = (\<forall>n c. stepRel (p1 n c) (p2 n c))"

definition addnRel :: "addNodeFn \<Rightarrow> addNodeFn \<Rightarrow> bool" where
  "addnRel a1 a2 = (\<forall>c p key. optRel (a1 c p key) (a2 c p key))"

definition configRel :: "Config \<Rightarrow> Config \<Rightarrow> bool" where
  "configRel f1 f2 = (\<forall>c. optRel (f1 c) (f2 c))"

definition sameRegistration ::
  "error option \<times> container \<Rightarrow> error option \<times> container \<Rightarrow> bool"
where
  "sameRegistration x y =
     ((fst x = None \<and> fst y = None \<and> snd x = snd y) \<or> (fst x \<noteq> None \<and> fst y \<noteq> None))"

definition badEntry :: "container \<Rightarrow> rtype \<Rightarrow> string \<times> resolver \<Rightarrow> bool" where
  "badEntry c t kr =
     (case getType c (snd kr) of
        None \<Rightarrow> True
      | Some u \<Rightarrow> Kind u \<noteq> Interface \<and> Implements u t = None)"

text \<open>The cycle of the spec: \<^verbatim>\<open>f\<close> needs an \<^verbatim>\<open>int\<close> to give a \<^verbatim>\<open>float64\<close> and
  \<^verbatim>\<open>g\<close> needs a \<^verbatim>\<open>float64\<close> to give an \<^verbatim>\<open>int\<close>.\<close>

definition locF :: location where
  "locF = \<lparr> name = ''f'', pkg = ''example.com/app'', filename = ''app.go'', line = 20 \<rparr>"

definition locG :: location where
  "locG = \<lparr> name = ''g'', pkg = ''example.com/app'', filename = ''app.go'', line = 30 \<rparr>"

definition descF :: providerDescriptor where
  "descF =
     \<lparr> Inputs = [\<lparr> Type = intT, Optional = False \<rparr>],
       Outputs = [\<lparr> OutType = float64T \<rparr>],
       Fn = (\<lambda>vs. case vs of [IntV x] \<Rightarrow> Inr [PrimV Float64 x]
                   | _ \<Rightarrow> Inl (Panic ''reflect: Call with wrong arguments'')),
       Location = locF \<rparr>"

definition descG :: providerDescriptor where
  "descG =
     \<lparr> Inputs = [\<lparr> Type = float64T, Optional = False \<rparr>],
       Outputs = [\<lparr> OutType = intT \<rparr>],
       Fn = (\<lambda>vs. case vs of [PrimV Float64 x] \<Rightarrow> Inr [IntV x]
                   | _ \<Rightarrow> Inl (Panic ''reflect: Call with wrong arguments'')),
       Location = locG \<rparr>"

text \<open>The resolver lookup, the registration and the build with the parts above filled in;
  \<open>create\<close> and the registration of scoped providers stay parameters.\<close>

definition lookup :: "createFn \<Rightarrow> walk \<Rightarrow> getResFn" where
  "lookup create ord = getResolver getExplicitResolver create ord"

definition registerWith ::
  "getResFn \<Rightarrow> (container \<Rightarrow> providerDescriptor \<Rightarrow> error option \<times> container) \<Rightarrow> addNodeFn"
where
  "registerWith getRes scoped =
     addNode validateInput getRes (\<lambda>p. False) addSimpleNode scoped"

definition register ::
  "createFn \<Rightarrow> walk \<Rightarrow> (container \<Rightarrow> providerDescriptor \<Rightarrow> error option \<times> container)
     \<Rightarrow> addNodeFn"
where
  "register create ord scoped = registerWith (lookup create ord) scoped"

text \<open>The container after registering \<^verbatim>\<open>f\<close> and \<^verbatim>\<open>g\<close>.\<close>

definition cycleContainer :: container where
  "cycleContainer =
     newContainer\<lparr>
        resolvers := [(''float64'', SimpleResolver 1), (''int'', SimpleResolver 3)],
        simples :=
          [1 \<mapsto> \<lparr> node = 0, idxInValues = 0, sresolved = False, styp = float64T,
                   svalue = Zero \<rparr>,
           3 \<mapsto> \<lparr> node = 2, idxInValues = 0, sresolved = False, styp = intT,
                   svalue = Zero \<rparr>],
        nodes :=
          [0 \<mapsto> \<lparr> provider = descF, moduleKey = None, called = False, pvalues = [] \<rparr>,
           2 \<mapsto> \<lparr> provider = descG, moduleKey = None, called = False, pvalues = [] \<rparr>],
        nextAddr := 4 \<rparr>"

text \<open>The ducks of the binding tests as a configuration: providers of \<^verbatim>\<open>Mallard\<close> and of
  \<^verbatim>\<open>Canvasback\<close>, and a provider that needs a \<^verbatim>\<open>Duck\<close>; no scoped providers; the build
  with a bound on the nesting of resolution.\<close>

definition wrapperT :: rtype where
  "wrapperT = RType ''Wrapper'' ''example.com/app'' ''app.Wrapper'' [] StructS"

definition provideMallard :: providerDescriptor where
  "provideMallard =
     \<lparr> Inputs = [], Outputs = [\<lparr> OutType = mallardT \<rparr>],
       Fn = (\<lambda>vs. Inr [StructV []]),
       Location = \<lparr> name = ''ProvideMallard'', pkg = ''example.com/app'',
                    filename = ''app.go'', line = 40 \<rparr> \<rparr>"

definition provideCanvasback :: providerDescriptor where
  "provideCanvasback =
     \<lparr> Inputs = [], Outputs = [\<lparr> OutType = canvasbackT \<rparr>],
       Fn = (\<lambda>vs. Inr [StructV [IntV 1]]),
       Location = \<lparr> name = ''ProvideCanvasback'', pkg = ''example.com/app'',
                    filename = ''app.go'', line = 41 \<rparr> \<rparr>"

definition provideWrapper :: providerDescriptor where
  "provideWrapper =
     \<lparr> Inputs = [\<lparr> Type = duckT, Optional = False \<rparr>], Outputs = [\<lparr> OutType = wrapperT \<rparr>],
       Fn = (\<lambda>vs. Inr [StructV vs]),
       Location = \<lparr> name = ''ProvideWrapper'', pkg = ''example.com/app'',
                    filename = ''app.go'', line = 50 \<rparr> \<rparr>"

definition noScoped :: "container \<Rightarrow> providerDescriptor \<Rightarrow> error option \<times> container" where
  "noScoped = (\<lambda>c p. (None, c))"

definition twoDucksConfig :: "getResFn \<Rightarrow> Config" where
  "twoDucksConfig g =
     Configs [Provide Inr (registerWith g noScoped) [provideMallard, provideCanvasback],
              Provide Inr (registerWith g noScoped) [provideWrapper]]"

definition buildTo :: "nat \<Rightarrow> getResFn \<Rightarrow> buildFn" where
  "buildTo n g = build (resolveF g n)"

section \<open>Verified properties\<close>

subsection \<open>Type validation\<close>









subsection \<open>The call bracket\<close>

lemma call_cyclic:
  "callerMap c (Location p) = Some True \<Longrightarrow>
     call rslv p key c =
       (Inl (Wrapf ErrCyclicDependency ''%s -> %s''
          [ArgString (locationName (Location p)), ArgString (locationName (Location p))]), c)"
  by (simp add: call_def checkCyclicDependency_def)

lemma resolveInputs_callers:
  assumes "preservesCallers rslv"
  shows "callerStack (snd (resolveInputs rslv ins key l c)) = callerStack c \<and>
         callerSet (snd (resolveInputs rslv ins key l c)) = callerSet c"
proof (induction ins arbitrary: c)
  case Nil
  show ?case by simp
next
  case (Cons i ins)
  obtain r c1 where r: "rslv i key l c = (r, c1)" by (cases "rslv i key l c")
  have c1: "callerStack c1 = callerStack c \<and> callerSet c1 = callerSet c"
    using assms r unfolding preservesCallers_def by (metis snd_conv)
  show ?case
  proof (cases r)
    case (Inl e)
    with r c1 show ?thesis by simp
  next
    case (Inr v)
    obtain r2 c2 where r2: "resolveInputs rslv ins key l c1 = (r2, c2)"
      by (cases "resolveInputs rslv ins key l c1")
    with Cons[of c1] c1 have "callerStack c2 = callerStack c \<and> callerSet c2 = callerSet c"
      by simp
    with r Inr r2 show ?thesis by (cases r2) simp_all
  qed
qed

lemma callBody_callers:
  assumes "preservesCallers rslv"
  shows "callerStack (snd (callBody rslv p key c)) = callerStack c \<and>
         callerSet (snd (callBody rslv p key c)) = callerSet c"
proof -
  obtain r c1 where r: "resolveInputs rslv (Inputs p) key (Location p) c = (r, c1)"
    by (cases "resolveInputs rslv (Inputs p) key (Location p) c")
  with resolveInputs_callers[OF assms, of "Inputs p" key "Location p" c]
  have "callerStack c1 = callerStack c \<and> callerSet c1 = callerSet c" by simp
  with r show ?thesis
    by (cases r) (auto simp: callBody_def split: sum.splits)
qed

lemma call_callers:
  assumes "preservesCallers rslv"
  shows "callerStack (snd (call rslv p key c)) = callerStack c \<and>
         callerSet (snd (call rslv p key c)) = callerSet c"
proof (cases "callerMap c (Location p) = Some True")
  case True
  then show ?thesis by (simp add: call_cyclic)
next
  case False
  obtain r c1 where b: "callBody rslv p key (pushCaller c (Location p)) = (r, c1)"
    by (cases "callBody rslv p key (pushCaller c (Location p))")
  with callBody_callers[OF assms, of p key "pushCaller c (Location p)"]
  have c1: "callerStack c1 = callerStack c @ [Location p]"
           "callerSet c1 = insert (Location p) (callerSet c)"
    by (auto simp: pushCaller_def callerSet_def)
  have notin: "Location p \<notin> callerSet c" using False by (simp add: callerSet_def)
  obtain c2 where pop: "popCaller c1 (Location p) = (None, c2)"
    "callerStack c2 = callerStack c" "callerMap c2 = (callerMap c1)(Location p := None)"
    using c1(1) by (simp add: popCaller_def Let_def)
  have "callerSet c2 = callerSet c1 - {Location p}"
    using pop(3) by (auto simp: callerSet_def)
  with c1(2) notin have "callerSet c2 = callerSet c" by auto
  with b False pop show ?thesis by (simp add: call_def checkCyclicDependency_def)
qed

lemma callerSet_cong: "callerMap c1 = callerMap c \<Longrightarrow> callerSet c1 = callerSet c"
  by (simp add: callerSet_def)

lemma simpleProvider_resolveValues_callers:
  assumes "\<forall>p key c. keepsCallers (callf p key c) c"
  shows "keepsCallers (simpleProvider_resolveValues callf n c) c"
proof (cases "nodes c n")
  case None
  then show ?thesis by (simp add: simpleProvider_resolveValues_def keepsCallers_def)
next
  case (Some s)
  obtain r c1 where r: "callf (provider s) (moduleKey s) c = (r, c1)"
    by (cases "callf (provider s) (moduleKey s) c")
  with assms have "keepsCallers (r, c1) c" by metis
  with r Some show ?thesis
    by (cases r)
       (auto simp: simpleProvider_resolveValues_def keepsCallers_def callerSet_def
         split: option.splits)
qed

lemma simpleResolver_resolve_callers:
  assumes "\<forall>n c. keepsCallers (pv n c) c"
  shows "keepsCallers (simpleResolver_resolve pv a c key l) c"
proof (cases "simples c a")
  case None
  then show ?thesis by (simp add: simpleResolver_resolve_def keepsCallers_def)
next
  case (Some s)
  obtain r c1 where r: "pv (node s) c = (r, c1)" by (cases "pv (node s) c")
  with assms have "keepsCallers (r, c1) c" by metis
  with r Some show ?thesis
    by (cases r)
       (auto simp: simpleResolver_resolve_def keepsCallers_def callerSet_def
         split: option.splits)
qed

lemma resolveValuesLoop_callers:
  assumes "\<forall>n c. keepsCallers (pv n c) c"
  shows "keepsCallers (resolveValuesLoop pv a ps i acc c) c"
proof (induction ps arbitrary: i acc c)
  case Nil
  show ?case by (simp add: keepsCallers_def)
next
  case (Cons p ps)
  obtain r c1 where r: "pv p c = (r, c1)" by (cases "pv p c")
  with assms have k: "keepsCallers (r, c1) c" by metis
  show ?case
  proof (cases r)
    case (Inl e)
    with r k show ?thesis by (simp add: keepsCallers_def)
  next
    case (Inr vals)
    have "keepsCallers (resolveValuesLoop pv a ps (Suc i) acc' c1) c" for acc'
      using Cons[of "Suc i" acc' c1] k by (simp add: keepsCallers_def)
    with r Inr k show ?thesis
      by (auto simp: keepsCallers_def Let_def split: option.splits)
  qed
qed

lemma sliceGroupResolver_resolve_callers:
  assumes "\<forall>n c. keepsCallers (pv n c) c"
  shows "keepsCallers (sliceGroupResolver_resolve pv a c key l) c"
proof (cases "groups c a")
  case None
  then show ?thesis by (simp add: sliceGroupResolver_resolve_def keepsCallers_def)
next
  case (Some g)
  obtain r c1 where r: "resolveValuesLoop pv a (providers g) 0 (SliceV []) c = (r, c1)"
    by (cases "resolveValuesLoop pv a (providers g) 0 (SliceV []) c")
  with resolveValuesLoop_callers[OF assms, of a "providers g" 0 "SliceV []" c]
  have "keepsCallers (r, c1) c" by simp
  with r Some show ?thesis
    by (cases r)
       (auto simp: sliceGroupResolver_resolve_def resolveValues_def keepsCallers_def
         callerSet_def split: option.splits)
qed

lemma resolver_resolve_callers:
  assumes "\<forall>n c. keepsCallers (pv n c) c"
  shows "keepsCallers (resolver_resolve pv r c key l) c"
  using simpleResolver_resolve_callers[OF assms] sliceGroupResolver_resolve_callers[OF assms]
  by (cases r)
     (auto simp: resolver_resolve_def groupResolver_resolve_def keepsCallers_def
       split: option.splits)

lemma resolve_callers:
  assumes "\<forall>c t key. keepsCallers (g c t key) c" "\<forall>n c. keepsCallers (pv n c) c"
  shows "keepsCallers (resolve g pv i key l c) c"
proof -
  obtain r c1 where r: "g c (Type i) key = (r, c1)" by (cases "g c (Type i) key")
  with assms(1) have k: "keepsCallers (r, c1) c" by metis
  from resolver_resolve_callers[OF assms(2)]
  have "keepsCallers (resolver_resolve pv vr c1 key l) c" for vr
    using k by (simp add: keepsCallers_def)
  with r k show ?thesis
    by (cases r) (auto simp: resolve_def keepsCallers_def)
qed

lemma preservesCallers_keeps:
  "preservesCallers rslv = (\<forall>i key l c. keepsCallers (rslv i key l c) c)"
  by (simp add: preservesCallers_def keepsCallers_def)

lemma resolveF_callers:
  assumes "\<forall>c t key. keepsCallers (g c t key) c"
  shows "preservesCallers (resolveF g n)"
proof (induction n)
  case 0
  show ?case by (simp add: preservesCallers_def)
next
  case (Suc n)
  have "\<forall>p key c. keepsCallers (call (resolveF g n) p key c) c"
    using call_callers[OF Suc] by (simp add: keepsCallers_def)
  from simpleProvider_resolveValues_callers[OF this]
  have "\<forall>m c. keepsCallers (simpleProvider_resolveValues (call (resolveF g n)) m c) c"
    by blast
  from resolve_callers[OF assms this] show ?case
    by (simp add: preservesCallers_keeps)
qed

lemma lookup_callers:
  assumes "\<forall>c e t. keepsCallers (create c e t) c"
  shows "keepsCallers (lookup create ord c t key) c"
proof -
  have a: "keepsCallers (resolveInterfaceType ord c t) c"
    by (auto simp: resolveInterfaceType_def keepsCallers_def addResolver_def callerSet_def
        Let_def split: option.splits list.splits)
  show ?thesis using a assms
    by (auto simp: lookup_def getResolver_def getExplicitResolver_def keepsCallers_def Let_def
        split: option.splits prod.splits bool.splits)
qed

text \<open>
  C7. For every invocation of \<^verbatim>\<open>call\<close>, whatever it returns (the cyclic-dependency error,
  an error of the resolution of an input, an error of the provider function, or the
  outputs), the caller stack and the membership set of the caller map are what they were
  before the call, given that the resolution of the inputs, which re-enters the container,
  leaves them so. By the lemmas above the resolution modelled from the spec does, at every
  bound on its nesting, since it changes them through \<^verbatim>\<open>call\<close> only.
\<close>

theorem call_restores_callers:
  assumes "preservesCallers rslv"
  shows "callerStack (snd (call rslv p key c)) = callerStack c \<and>
         callerSet (snd (call rslv p key c)) = callerSet c"
  using call_callers[OF assms] .

theorem call_restores_callers_witness:
  "callerStack (snd (call okResolve exProvider None newContainer)) = [] \<and>
   callerSet (snd (call okResolve exProvider None newContainer)) = {} \<and>
   isl (fst (call failResolve exProvider None newContainer)) \<and>
   callerStack (snd (call failResolve exProvider None newContainer)) = [] \<and>
   isl (fst (call okResolve exFailingProvider None newContainer)) \<and>
   callerStack (snd (call okResolve exFailingProvider None newContainer)) = [] \<and>
   isl (fst (call (resolveF (lookup noCreate id) 3) descG None cycleContainer)) \<and>
   callerStack (snd (call (resolveF (lookup noCreate id) 3) descG None cycleContainer)) = [] \<and>
   callerSet (snd (call (resolveF (lookup noCreate id) 3) descG None cycleContainer)) = {}"
proof -
  have ok: "preservesCallers okResolve" by (simp add: preservesCallers_def okResolve_def)
  have fl: "preservesCallers failResolve" by (simp add: preservesCallers_def failResolve_def)
  have nested: "preservesCallers (resolveF (lookup noCreate id) 3)"
    by (intro resolveF_callers allI lookup_callers) (simp add: noCreate_def keepsCallers_def)
  have e: "callerStack newContainer = []" "callerSet newContainer = {}"
    "callerStack cycleContainer = []" "callerSet cycleContainer = {}"
    by (simp_all add: newContainer_def cycleContainer_def callerSet_def)
  have i1: "isl (fst (call failResolve exProvider None newContainer))"
    by (simp add: call_def checkCyclicDependency_def callBody_def pushCaller_def popCaller_def
        newContainer_def exProvider_def failResolve_def Let_def)
  have i2: "isl (fst (call okResolve exFailingProvider None newContainer))"
    by (simp add: call_def checkCyclicDependency_def callBody_def pushCaller_def popCaller_def
        newContainer_def exProvider_def exFailingProvider_def okResolve_def Let_def)
  have i3: "isl (fst (call (resolveF (lookup noCreate id) 3) descG None cycleContainer))"
    by code_simp
  show ?thesis
    using call_restores_callers[OF ok, of exProvider None newContainer]
      call_restores_callers[OF fl, of exProvider None newContainer]
      call_restores_callers[OF ok, of exFailingProvider None newContainer]
      call_restores_callers[OF nested, of descG None cycleContainer] e i1 i2 i3
    by simp
qed

subsection \<open>Group resolution\<close>






text \<open>
  C5. After a successful resolution of the slice form of a group, a further resolution on
  a container in which the group object is as the first one left it returns the same
  sequence and leaves the container as it is, whatever the function that resolves provider
  values would do: no provider is invoked again.
\<close>

theorem sliceGroup_resolve_idempotent:
  assumes "sliceGroupResolver_resolve pv a c key caller = (Inr v, c1)"
    and "groups c2 a = groups c1 a"
  shows "sliceGroupResolver_resolve pv' a c2 key' caller' = (Inr v, c2)"
  using assms
  by (auto simp: sliceGroupResolver_resolve_def resolveValues_def
      split: option.splits if_splits prod.splits sum.splits)

theorem sliceGroup_resolve_idempotent_witness:
  "sliceGroupResolver_resolve failPv 0
     (snd (sliceGroupResolver_resolve exPv 0 exGroupContainer None exLoc)) None exLoc =
   (Inr (SliceV [StringV ''a'', StringV ''b'', StringV ''c'']),
    snd (sliceGroupResolver_resolve exPv 0 exGroupContainer None exLoc))"
proof -
  have first: "fst (sliceGroupResolver_resolve exPv 0 exGroupContainer None exLoc) =
      Inr (SliceV [StringV ''a'', StringV ''b'', StringV ''c''])"
    by (simp add: sliceGroupResolver_resolve_def resolveValues_def exGroupContainer_def
        exGroup_def newGroupResolver_def newContainer_def exPv_def exOuts_def
        nilDeref_def indexOutOfRange_def)
  then have "sliceGroupResolver_resolve exPv 0 exGroupContainer None exLoc =
      (Inr (SliceV [StringV ''a'', StringV ''b'', StringV ''c'']),
       snd (sliceGroupResolver_resolve exPv 0 exGroupContainer None exLoc))"
    by (metis prod.collapse)
  from sliceGroup_resolve_idempotent[OF this refl] show ?thesis .
qed


subsection \<open>Interface resolution\<close>

lemma putMatch_set: "set (putMatch ms u) = insert u (set ms)"
  by (auto simp: putMatch_def)

lemma putMatch_distinct: "distinct ms \<Longrightarrow> distinct (putMatch ms u)"
  by (auto simp: putMatch_def)









subsection \<open>Registry keys\<close>

text \<open>
  C4, as stated, fails for the resolver registry: \<^verbatim>\<open>addResolver\<close> files a resolver under
  the fully-qualified type name alone. After adding a resolver for \<^verbatim>\<open>string\<close> to the
  empty container, the registry has it under \<^verbatim>\<open>string\<close> and has nothing under the
  binding key \<^verbatim>\<open>string;\<close> of the global scope nor under that of a module.
\<close>

theorem addResolver_key_counterexample:
  "map_of (resolvers (addResolver newContainer stringT (SimpleResolver 0))) ''string'' =
     Some (SimpleResolver 0) \<and>
   map_of (resolvers (addResolver newContainer stringT (SimpleResolver 0)))
     (bindingKeyFromType stringT None) = None \<and>
   map_of (resolvers (addResolver newContainer stringT (SimpleResolver 0)))
     (bindingKeyFromType stringT (Some (ModuleKey ''a''))) = None"
  by (simp add: addResolver_def newContainer_def fullyQualifiedTypeName_def stringT_def
      Kind_def bindingKeyFromType_def bindingKeyFromTypeName_def)

text \<open>
  C4, amended. The binding key is the type name, a semicolon and the scope name or nothing,
  and it keys the table of interface bindings: \<^verbatim>\<open>addBinding\<close> files a binding under the
  key of its interface name and module key, leaving the registry alone. The resolver
  registry maps a fully-qualified type name, without any scope, to exactly one resolver:
  \<^verbatim>\<open>addResolver\<close> files the resolver under the name of the type, replacing what was there
  and keeping the names distinct, and \<^verbatim>\<open>resolverByType\<close> looks it up under that name.
\<close>

theorem registry_keys:
  "bindingKeyFromTypeName n None = n @ '';'' \<and>
   bindingKeyFromTypeName n (Some k) = n @ '';'' @ mkName k \<and>
   interfaceBindings (addBinding c p) =
     (interfaceBindings c)(bindingKeyFromTypeName (interfaceName p) (bmoduleKey p) \<mapsto> p) \<and>
   resolvers (addBinding c p) = resolvers c \<and>
   map_of (resolvers (addResolver c t r)) =
     (map_of (resolvers c))(fullyQualifiedTypeName t \<mapsto> r) \<and>
   interfaceBindings (addResolver c t r) = interfaceBindings c \<and>
   resolverByType (addResolver c t r) t = (r, True) \<and>
   resolverByType c t =
     (case map_of (resolvers c) (fullyQualifiedTypeName t) of
        None \<Rightarrow> (NilResolver, False) | Some res \<Rightarrow> (res, True)) \<and>
   (distinct (map fst (resolvers c)) \<longrightarrow> distinct (map fst (resolvers (addResolver c t r))))"
  by (simp add: bindingKeyFromTypeName_def addBinding_def addResolver_def update_conv'
      resolverByType_def resolverByTypeName_def distinct_update)

theorem registry_keys_witness:
  "distinct (map fst (resolvers (addResolver oneDuckContainer duckT (SimpleResolver 0)))) \<and>
   resolverByType (addResolver oneDuckContainer duckT (SimpleResolver 0)) duckT =
     (SimpleResolver 0, True)"
  using registry_keys[of "''x''" "ModuleKey ''m''" oneDuckContainer
      "\<lparr> interfaceName = ''i'', implTypeName = ''o'', bmoduleKey = None,
         bresolver = NilResolver \<rparr>" duckT "SimpleResolver 0"]
  by (simp add: oneDuckContainer_def newContainer_def fullyQualifiedTypeName_def Kind_def
      mallardT_def stringT_def)

subsection \<open>Configuration with an empty module name\<close>

text \<open>
  C10. Applied with the empty module name, \<^verbatim>\<open>ProvideInModule\<close> and \<^verbatim>\<open>InvokeInModule\<close>
  fail with the error "expected non-empty module name" and leave the container as it is;
  \<^verbatim>\<open>BindInterfaceInModule\<close> does not fail and does what \<^verbatim>\<open>BindInterface\<close> does: it files
  the binding, with the nil module key, under the binding key of the global scope.
\<close>

theorem empty_module_name:
  "ProvideInModule extract addn [] ps ctr = (Some (New ''expected non-empty module name''), ctr) \<and>
   InvokeInModule extract' addInvoker [] is ctr =
     (Some (New ''expected non-empty module name''), ctr) \<and>
   BindInterfaceInModule [] inTypeName outTypeName ctr = BindInterface inTypeName outTypeName ctr \<and>
   BindInterfaceInModule [] inTypeName outTypeName ctr =
     (None, ctr\<lparr> interfaceBindings := (interfaceBindings ctr)
        (bindingKeyFromTypeName inTypeName None \<mapsto>
           \<lparr> interfaceName = inTypeName, implTypeName = outTypeName, bmoduleKey = None,
             bresolver = NilResolver \<rparr>) \<rparr>)"
  by (simp add: ProvideInModule_def InvokeInModule_def BindInterfaceInModule_def
      BindInterface_def bindInterface_def addBinding_def ErrEmptyModuleName_def)

subsection \<open>Cyclic dependencies\<close>

lemmas registration_defs =
  Provide_def register_def registerWith_def lookup_def addNode_def
  validateProviderInputs_def addInputTypeToGraph_def validateInput_def addSimpleNode_def
  getResolver_def getExplicitResolver_def resolverByType_def resolverByTypeName_def
  getElementType_def isManyPerContainerSliceType_def isOnePerModuleMapType_def
  resolveInterfaceType_def addResolver_def fullyQualifiedTypeName_def bindingKeyFromType_def
  bindingKeyFromTypeName_def Kind_def Elem_def isExportedType.simps isNamedType_def
  newContainer_def

lemmas resolution_defs =
  build_def resolve_def resolver_resolve_def simpleResolver_resolve_def
  simpleProvider_resolveValues_def call_def callBody_def checkCyclicDependency_def
  pushCaller_def popCaller_def locationName_def formatFullName_def
  lookup_def getResolver_def getExplicitResolver_def resolverByType_def
  resolverByTypeName_def fullyQualifiedTypeName_def bindingKeyFromType_def
  bindingKeyFromTypeName_def Kind_def newContainer_def Let_def

lemma cycle_registered:
  "Provide Inr (register create ord scoped) [descF, descG] newContainer =
     (None, cycleContainer)"
  by (simp add: registration_defs cycleContainer_def descF_def descG_def locF_def locG_def
      intT_def float64T_def numeral_eq_Suc)

lemma cycle_build:
  "fst (build (resolveF (lookup create ord) (Suc (Suc (Suc n))))
     cycleContainer l [intT]) =
   Inl (Wrapf ErrCyclicDependency ''%s -> %s''
          [ArgString ''example.com/app.g'', ArgString ''example.com/app.g''])"
  by (simp add: resolution_defs cycleContainer_def descF_def descG_def locF_def locG_def
      intT_def float64T_def)

text \<open>
  C1. When the location of the descriptor is in the caller set at the time \<^verbatim>\<open>call\<close> is
  invoked, \<^verbatim>\<open>call\<close> returns the cyclic-dependency error for that location and leaves the
  container as it is, whatever the resolution of inputs and the function of the provider
  would do: neither is used. In particular the configuration that provides
  \<^verbatim>\<open>f: int -> float64\<close> and \<^verbatim>\<open>g: float64 -> int\<close>, injected for \<^verbatim>\<open>int\<close>, fails with the
  cyclic-dependency error (on re-entering \<^verbatim>\<open>g\<close>), for every bound of at least three on
  the nesting of resolution.
\<close>

theorem call_cyclic_dependency:
  "(callerMap c (Location p) = Some True \<longrightarrow>
      call rslv p key c =
        (Inl (Wrapf ErrCyclicDependency ''%s -> %s''
           [ArgString (locationName (Location p)), ArgString (locationName (Location p))]), c)) \<and>
   Inject (Provide Inr (register create ord scoped) [descF, descG])
     (build (resolveF (lookup create ord) (Suc (Suc (Suc n))))) l [intT] =
     Inl (Wrapf ErrCyclicDependency ''%s -> %s''
            [ArgString ''example.com/app.g'', ArgString ''example.com/app.g''])"
  by (simp add: call_cyclic Inject_def buildContainer_def cycle_registered cycle_build
      del: resolveF.simps)

theorem call_cyclic_dependency_witness:
  "call failResolve exFailingProvider None (pushCaller newContainer exLoc) =
     (Inl (Wrapf (New ''cyclic dependency detected'') ''%s -> %s''
        [ArgString ''example.com/app.ProvideA'', ArgString ''example.com/app.ProvideA'']),
      pushCaller newContainer exLoc)"
  using call_cyclic_dependency[of "pushCaller newContainer exLoc" exFailingProvider failResolve
      None noCreate id "\<lambda>c p. (None, c)" 0 exLoc]
  by (simp add: pushCaller_def exFailingProvider_def exProvider_def exLoc_def locationName_def
      formatFullName_def ErrCyclicDependency_def)

subsection \<open>Independence of the map walk\<close>

lemma stepRel_cases:
  assumes "stepRel x y"
  obtains "x = y" | e1 e2 c where "x = (Inl e1, c)" "y = (Inl e2, c)"
  using assms by (cases x; cases y; cases "fst x"; cases "fst y") (auto simp: stepRel_def sameOutcome_def)

lemma optRel_cases:
  assumes "optRel x y"
  obtains "x = y" | e1 e2 c where "x = (Some e1, c)" "y = (Some e2, c)"
  using assms by (cases x; cases y) (auto simp: optRel_def)

lemma stepRel_refl [simp]: "stepRel x x"
  by (simp add: stepRel_def sameOutcome_def)

lemma stepRel_Inl [simp]: "stepRel (Inl e1, c) (Inl e2, c)"
  by (simp add: stepRel_def sameOutcome_def)

lemma optRel_refl [simp]: "optRel x x"
  by (simp add: optRel_def)

lemma optRel_Some [simp]: "optRel (Some e1, c) (Some e2, c)"
  by (simp add: optRel_def)

(* order independence of the match collection *)

lemma collectMatches_None:
  "(collectMatches c t rs acc = None) = (\<exists>kr \<in> set rs. badEntry c t kr)"
proof (induction rs arbitrary: acc)
  case Nil
  show ?case by simp
next
  case (Cons kr rs)
  obtain k r where kr: "kr = (k, r)" by (cases kr)
  show ?case
  proof (cases "getType c r")
    case None
    with kr show ?thesis by (simp add: badEntry_def)
  next
    case (Some u)
    show ?thesis
    proof (cases "Kind u \<noteq> Interface")
      case True
      show ?thesis
      proof (cases "Implements u t")
        case None
        with kr Some True show ?thesis by (simp add: badEntry_def)
      next
        case (Some b)
        with kr \<open>getType c r = Some u\<close> True Cons.IH show ?thesis
          by (simp add: badEntry_def)
      qed
    next
      case False
      with kr Some Cons.IH show ?thesis by (simp add: badEntry_def)
    qed
  qed
qed

lemma collectMatches_Some:
  "collectMatches c t rs acc = Some ms \<Longrightarrow> distinct acc \<Longrightarrow>
     distinct ms \<and> set ms = set acc \<union> {u. \<exists>(k, r) \<in> set rs.
        getType c r = Some u \<and> Kind u \<noteq> Interface \<and> Implements u t = Some True}"
proof (induction rs arbitrary: acc)
  case Nil
  then show ?case by simp
next
  case (Cons kr rs)
  obtain k r where kr: "kr = (k, r)" by (cases kr)
  from Cons.prems(1) kr obtain u where u: "getType c r = Some u"
    by (cases "getType c r") auto
  show ?case
  proof (cases "Kind u \<noteq> Interface")
    case True
    with Cons.prems(1) kr u obtain b where b: "Implements u t = Some b"
      by (cases "Implements u t") auto
    show ?thesis
    proof (cases b)
      case True
      with Cons.prems(1) kr u b \<open>Kind u \<noteq> Interface\<close>
      have "collectMatches c t rs (putMatch acc u) = Some ms" by simp
      from Cons.IH[OF this putMatch_distinct[OF Cons.prems(2)]] kr u b True \<open>Kind u \<noteq> Interface\<close>
      show ?thesis by (auto simp: putMatch_set)
    next
      case False
      with Cons.prems(1) kr u b \<open>Kind u \<noteq> Interface\<close>
      have "collectMatches c t rs acc = Some ms" by simp
      from Cons.IH[OF this Cons.prems(2)] kr u b False show ?thesis by auto
    qed
  next
    case False
    with Cons.prems(1) kr u have "collectMatches c t rs acc = Some ms" by simp
    from Cons.IH[OF this Cons.prems(2)] kr u False show ?thesis by auto
  qed
qed

lemma findImplementingTypes_walks:
  assumes "isWalk ord1" "isWalk ord2"
  shows "(findImplementingTypes ord1 c t = None \<and> findImplementingTypes ord2 c t = None) \<or>
         (\<exists>ms1 ms2. findImplementingTypes ord1 c t = Some ms1 \<and>
            findImplementingTypes ord2 c t = Some ms2 \<and>
            distinct ms1 \<and> distinct ms2 \<and> set ms1 = set ms2)"
proof -
  have s: "set (ord1 (resolvers c)) = set (ord2 (resolvers c))"
    using assms by (simp add: isWalk_def)
  show ?thesis
  proof (cases "findImplementingTypes ord1 c t")
    case None
    then have "findImplementingTypes ord2 c t = None"
      using s by (simp add: findImplementingTypes_def collectMatches_None)
    with None show ?thesis by simp
  next
    case (Some ms1)
    then have "findImplementingTypes ord1 c t \<noteq> None" by simp
    then have "findImplementingTypes ord2 c t \<noteq> None"
      using s unfolding findImplementingTypes_def collectMatches_None by simp
    then obtain ms2 where ms2: "findImplementingTypes ord2 c t = Some ms2" by auto
    from collectMatches_Some[OF Some[unfolded findImplementingTypes_def]]
      collectMatches_Some[OF ms2[unfolded findImplementingTypes_def]] s Some ms2
    show ?thesis by auto
  qed
qed

lemma distinct_same_set_shape:
  assumes "distinct xs" "distinct ys" "set xs = set ys"
  shows "(xs = [] \<and> ys = []) \<or> (\<exists>a. xs = [a] \<and> ys = [a]) \<or>
         (\<exists>a b as a' b' bs. xs = a # b # as \<and> ys = a' # b' # bs)"
proof -
  have "length xs = length ys" using assms by (metis distinct_card)
  then show ?thesis using assms(3)
    by (cases xs; cases ys; cases "tl xs"; cases "tl ys") auto
qed

lemma resolveInterfaceType_walks:
  assumes "isWalk ord1" "isWalk ord2"
  shows "stepRel (resolveInterfaceType ord1 c t) (resolveInterfaceType ord2 c t)"
proof (cases "Kind t = Interface")
  case False
  then show ?thesis by (simp add: resolveInterfaceType_def)
next
  case True
  from findImplementingTypes_walks[OF assms, of c t] show ?thesis
  proof
    assume "findImplementingTypes ord1 c t = None \<and> findImplementingTypes ord2 c t = None"
    with True show ?thesis by (simp add: resolveInterfaceType_def)
  next
    assume "\<exists>ms1 ms2. findImplementingTypes ord1 c t = Some ms1 \<and>
            findImplementingTypes ord2 c t = Some ms2 \<and>
            distinct ms1 \<and> distinct ms2 \<and> set ms1 = set ms2"
    then obtain ms1 ms2 where m: "findImplementingTypes ord1 c t = Some ms1"
      "findImplementingTypes ord2 c t = Some ms2" "distinct ms1" "distinct ms2" "set ms1 = set ms2"
      by blast
    from distinct_same_set_shape[OF m(3,4,5)] m(1,2) True show ?thesis
      by (auto simp: resolveInterfaceType_def)
  qed
qed

lemma getResolver_walks:
  assumes "isWalk ord1" "isWalk ord2"
  shows "lockstep (getResolver explicit create ord1) (getResolver explicit create ord2)"
  unfolding lockstep_def
proof (intro allI)
  fix c t key
  obtain r c1 where e: "explicit c t key = (r, c1)" by (cases "explicit c t key")
  show "stepRel (getResolver explicit create ord1 c t key) (getResolver explicit create ord2 c t key)"
    using e resolveInterfaceType_walks[OF assms, of c1 t]
    by (cases r; cases "resolverByType c1 t"; cases "snd (resolverByType c1 t)")
       (auto simp: getResolver_def Let_def)
qed

lemma resolveInputs_rel:
  assumes "resolveRel r1 r2"
  shows "stepRel (resolveInputs r1 ins key l c) (resolveInputs r2 ins key l c)"
proof (induction ins arbitrary: c)
  case Nil
  show ?case by simp
next
  case (Cons i ins)
  from assms have "stepRel (r1 i key l c) (r2 i key l c)" by (simp add: resolveRel_def)
  then show ?case
  proof (cases rule: stepRel_cases)
    case 1
    obtain r c1 where r: "r2 i key l c = (r, c1)" by (cases "r2 i key l c")
    show ?thesis
    proof (cases r)
      case (Inl e)
      with 1 r show ?thesis by simp
    next
      case (Inr v)
      from Cons[of c1] show ?thesis
      proof (cases rule: stepRel_cases)
        case 1
        with \<open>r1 i key l c = r2 i key l c\<close> r Inr show ?thesis by simp
      next
        case (2 e1 e2 c2)
        with \<open>r1 i key l c = r2 i key l c\<close> r Inr show ?thesis by simp
      qed
    qed
  next
    case (2 e1 e2 c1)
    then show ?thesis by simp
  qed
qed

lemma callBody_rel:
  assumes "resolveRel r1 r2"
  shows "stepRel (callBody r1 p key c) (callBody r2 p key c)"
  using resolveInputs_rel[OF assms, of "Inputs p" key "Location p" c]
  by (cases rule: stepRel_cases) (simp_all add: callBody_def)

lemma call_rel:
  assumes "resolveRel r1 r2"
  shows "callRel (call r1) (call r2)"
  unfolding callRel_def
proof (intro allI)
  fix p key c
  from callBody_rel[OF assms, of p key "pushCaller c (Location p)"]
  show "stepRel (call r1 p key c) (call r2 p key c)"
    by (cases rule: stepRel_cases)
       (auto simp: call_def split: option.splits prod.splits)
qed

lemma simpleProvider_resolveValues_rel:
  assumes "callRel f1 f2"
  shows "pvRel (simpleProvider_resolveValues f1) (simpleProvider_resolveValues f2)"
  unfolding pvRel_def
proof (intro allI)
  fix n c
  show "stepRel (simpleProvider_resolveValues f1 n c) (simpleProvider_resolveValues f2 n c)"
  proof (cases "nodes c n")
    case None
    then show ?thesis by (simp add: simpleProvider_resolveValues_def)
  next
    case (Some s)
    from assms have "stepRel (f1 (provider s) (moduleKey s) c) (f2 (provider s) (moduleKey s) c)"
      by (simp add: callRel_def)
    then show ?thesis using Some
      by (cases rule: stepRel_cases) (simp_all add: simpleProvider_resolveValues_def)
  qed
qed

lemma simpleResolver_resolve_rel:
  assumes "pvRel p1 p2"
  shows "stepRel (simpleResolver_resolve p1 a c key l) (simpleResolver_resolve p2 a c key l)"
proof (cases "simples c a")
  case None
  then show ?thesis by (simp add: simpleResolver_resolve_def)
next
  case (Some s)
  from assms have "stepRel (p1 (node s) c) (p2 (node s) c)" by (simp add: pvRel_def)
  then show ?thesis using Some
    by (cases rule: stepRel_cases) (simp_all add: simpleResolver_resolve_def)
qed

lemma resolveValuesLoop_rel:
  assumes "pvRel p1 p2"
  shows "stepRel (resolveValuesLoop p1 a ps i acc c) (resolveValuesLoop p2 a ps i acc c)"
proof (induction ps arbitrary: i acc c)
  case Nil
  show ?case by simp
next
  case (Cons p ps)
  from assms have "stepRel (p1 p c) (p2 p c)" by (simp add: pvRel_def)
  then show ?case
  proof (cases rule: stepRel_cases)
    case 1
    obtain r c1 where r: "p2 p c = (r, c1)" by (cases "p2 p c")
    show ?thesis using 1 r Cons
      by (cases r) (auto split: option.splits simp: Let_def)
  next
    case (2 e1 e2 c1)
    then show ?thesis by simp
  qed
qed

lemma stepRel_opt:
  "stepRel x y \<Longrightarrow>
   optRel (case x of (Inl err, c1) \<Rightarrow> (Some err, c1) | (Inr v, c1) \<Rightarrow> f v c1)
          (case y of (Inl err, c1) \<Rightarrow> (Some err, c1) | (Inr v, c1) \<Rightarrow> f v c1)"
  by (erule stepRel_cases) simp_all

lemma optRel_step:
  "optRel x y \<Longrightarrow>
   stepRel (case x of (Some err, c1) \<Rightarrow> (Inl err, c1) | (None, c1) \<Rightarrow> f c1)
           (case y of (Some err, c1) \<Rightarrow> (Inl err, c1) | (None, c1) \<Rightarrow> f c1)"
  by (erule optRel_cases) simp_all

lemma resolveValues_rel:
  assumes "pvRel p1 p2"
  shows "optRel (resolveValues p1 a c) (resolveValues p2 a c)"
proof (cases "groups c a")
  case None
  then show ?thesis by (simp add: resolveValues_def)
next
  case (Some g)
  from stepRel_opt[OF resolveValuesLoop_rel[OF assms, of a "providers g" 0 "SliceV []" c],
      where f="\<lambda>result c1. case groups c1 a of None \<Rightarrow> (Some nilDeref, c1)
         | Some g1 \<Rightarrow> (None, c1\<lparr> groups :=
               (groups c1)(a \<mapsto> g1\<lparr> resolved := True, values := result \<rparr>) \<rparr>)"]
  show ?thesis using Some by (simp add: resolveValues_def)
qed

lemma sliceGroupResolver_resolve_rel:
  assumes "pvRel p1 p2"
  shows "stepRel (sliceGroupResolver_resolve p1 a c key l) (sliceGroupResolver_resolve p2 a c key l)"
proof (cases "groups c a")
  case None
  then show ?thesis by (simp add: sliceGroupResolver_resolve_def)
next
  case (Some g)
  from optRel_step[OF resolveValues_rel[OF assms, of a c],
      where f="\<lambda>c1. case groups c1 a of None \<Rightarrow> (Inl nilDeref, c1)
                          | Some g1 \<Rightarrow> (Inr (values g1), c1)"]
  show ?thesis using Some by (simp add: sliceGroupResolver_resolve_def)
qed

lemma resolver_resolve_rel:
  assumes "pvRel p1 p2"
  shows "stepRel (resolver_resolve p1 r c key l) (resolver_resolve p2 r c key l)"
  using simpleResolver_resolve_rel[OF assms] sliceGroupResolver_resolve_rel[OF assms]
  by (cases r) (simp_all add: resolver_resolve_def)

lemma resolve_rel:
  assumes "lockstep g1 g2" "pvRel p1 p2"
  shows "resolveRel (resolve g1 p1) (resolve g2 p2)"
  unfolding resolveRel_def
proof (intro allI)
  fix i :: providerInput and key l c
  from assms(1) have "stepRel (g1 c (Type i) key) (g2 c (Type i) key)" by (simp add: lockstep_def)
  then show "stepRel (resolve g1 p1 i key l c) (resolve g2 p2 i key l c)"
  proof (cases rule: stepRel_cases)
    case 1
    obtain r c1 where r: "g2 c (Type i) key = (r, c1)" by (cases "g2 c (Type i) key")
    show ?thesis using 1 r resolver_resolve_rel[OF assms(2)]
      by (cases r) (simp_all add: resolve_def)
  next
    case (2 e1 e2 c1)
    then show ?thesis by (simp add: resolve_def)
  qed
qed

lemma resolveF_rel:
  assumes "lockstep g1 g2"
  shows "resolveRel (resolveF g1 n) (resolveF g2 n)"
proof (induction n)
  case 0
  show ?case by (simp add: resolveRel_def)
next
  case (Suc n)
  show ?case
    using resolve_rel[OF assms simpleProvider_resolveValues_rel[OF call_rel[OF Suc]]] by simp
qed

lemma resolveOutputs_rel:
  assumes "resolveRel r1 r2"
  shows "stepRel (resolveOutputs r1 ts l c) (resolveOutputs r2 ts l c)"
proof (induction ts arbitrary: c)
  case Nil
  show ?case by simp
next
  case (Cons t ts)
  from assms have "stepRel (r1 \<lparr> Type = t, Optional = False \<rparr> None l c)
      (r2 \<lparr> Type = t, Optional = False \<rparr> None l c)" by (simp add: resolveRel_def)
  then show ?case
  proof (cases rule: stepRel_cases)
    case 1
    obtain r c1 where r: "r2 \<lparr> Type = t, Optional = False \<rparr> None l c = (r, c1)"
      by (cases "r2 \<lparr> Type = t, Optional = False \<rparr> None l c")
    show ?thesis
    proof (cases r)
      case (Inl e)
      with 1 r show ?thesis by simp
    next
      case (Inr v)
      from Cons[of c1] show ?thesis
      proof (cases rule: stepRel_cases)
        case 1
        with \<open>r1 \<lparr> Type = t, Optional = False \<rparr> None l c = _\<close> r Inr show ?thesis by simp
      next
        case (2 e1 e2 c2)
        with \<open>r1 \<lparr> Type = t, Optional = False \<rparr> None l c = _\<close> r Inr show ?thesis by simp
      qed
    qed
  next
    case (2 e1 e2 c1)
    then show ?thesis by simp
  qed
qed

lemma runInvokers_rel:
  assumes "resolveRel r1 r2"
  shows "optRel (runInvokers r1 ivs c) (runInvokers r2 ivs c)"
proof (induction ivs arbitrary: c)
  case Nil
  show ?case by simp
next
  case (Cons iv ivs)
  from call_rel[OF assms] have "stepRel (call r1 (fn iv) (modKey iv) c) (call r2 (fn iv) (modKey iv) c)"
    by (simp add: callRel_def)
  then show ?case
  proof (cases rule: stepRel_cases)
    case 1
    obtain r c1 where r: "call r2 (fn iv) (modKey iv) c = (r, c1)"
      by (cases "call r2 (fn iv) (modKey iv) c")
    show ?thesis using 1 r Cons by (cases r) simp_all
  next
    case (2 e1 e2 c1)
    then show ?thesis by simp
  qed
qed

lemma build_rel:
  assumes "resolveRel r1 r2"
  shows "stepRel (build r1 c l outs) (build r2 c l outs)"
  using resolveOutputs_rel[OF assms, of outs l c]
proof (cases rule: stepRel_cases)
  case 1
  obtain r c1 where r: "resolveOutputs r2 outs l c = (r, c1)" by (cases "resolveOutputs r2 outs l c")
  show ?thesis
  proof (cases r)
    case (Inl e)
    with 1 r show ?thesis by (simp add: build_def)
  next
    case (Inr vs)
    from optRel_step[OF runInvokers_rel[OF assms, of "invokers c1" c1], of "\<lambda>c2. (Inr vs, c2)"]
    show ?thesis using 1 r Inr by (simp add: build_def)
  qed
next
  case (2 e1 e2 c1)
  then show ?thesis by (simp add: build_def)
qed

lemma optRel_sameRegistration: "optRel x y \<Longrightarrow> sameRegistration x y"
  by (auto simp: optRel_def sameRegistration_def)

lemma addInputTypeToGraph_rel:
  assumes "lockstep g1 g2"
  shows "optRel (addInputTypeToGraph g1 c t p key) (addInputTypeToGraph g2 c t p key)"
proof -
  from assms have "stepRel (g1 c t key) (g2 c t key)" by (simp add: lockstep_def)
  from stepRel_opt[OF this, where f="\<lambda>vr c1. (None, c1)"] show ?thesis
    by (simp add: addInputTypeToGraph_def)
qed

lemma validateInputsLoop_rel:
  assumes "lockstep g1 g2"
  shows "optRel (validateInputsLoop vi g1 c ins p key) (validateInputsLoop vi g2 c ins p key)"
proof (induction ins arbitrary: c)
  case Nil
  show ?case by simp
next
  case (Cons i ins)
  show ?case
  proof (cases "vi c (Type i) key")
    case (Some e)
    then show ?thesis by simp
  next
    case None
    from addInputTypeToGraph_rel[OF assms, of c "Type i" p key] show ?thesis
    proof (cases rule: optRel_cases)
      case 1
      obtain r c1 where r: "addInputTypeToGraph g2 c (Type i) p key = (r, c1)"
        by (cases "addInputTypeToGraph g2 c (Type i) p key")
      show ?thesis using 1 r None Cons[of c1] by (cases r) simp_all
    next
      case (2 e1 e2 c1)
      with None show ?thesis by simp
    qed
  qed
qed

lemma addNode_rel:
  assumes "lockstep g1 g2"
  shows "addnRel (addNode vi g1 h asn ams) (addNode vi g2 h asn ams)"
  unfolding addnRel_def
proof (intro allI)
  fix c p key
  from validateInputsLoop_rel[OF assms, of vi c "Inputs p" p key]
  show "optRel (addNode vi g1 h asn ams c p key) (addNode vi g2 h asn ams c p key)"
    by (cases rule: optRel_cases) (simp_all add: addNode_def validateProviderInputs_def)
qed

lemma provide_rel:
  assumes "addnRel a1 a2"
  shows "optRel (provide ex a1 ctr key ps) (provide ex a2 ctr key ps)"
proof (induction ps arbitrary: ctr)
  case Nil
  show ?case by simp
next
  case (Cons p ps)
  show ?case
  proof (cases "ex p")
    case (Inl e)
    then show ?thesis by simp
  next
    case (Inr desc)
    from assms have "optRel (a1 ctr desc key) (a2 ctr desc key)" by (simp add: addnRel_def)
    then show ?thesis
    proof (cases rule: optRel_cases)
      case 1
      obtain r c1 where r: "a2 ctr desc key = (r, c1)" by (cases "a2 ctr desc key")
      show ?thesis using 1 r Inr Cons[of c1] by (cases r) simp_all
    next
      case (2 e1 e2 c1)
      with Inr show ?thesis by simp
    qed
  qed
qed

lemma Provide_rel:
  "addnRel a1 a2 \<Longrightarrow> configRel (Provide ex a1 ps) (Provide ex a2 ps)"
  by (simp add: configRel_def Provide_def provide_rel)

lemma ProvideInModule_rel:
  "addnRel a1 a2 \<Longrightarrow> configRel (ProvideInModule ex a1 m ps) (ProvideInModule ex a2 m ps)"
  by (auto simp: configRel_def ProvideInModule_def provide_rel split: prod.splits)

lemma configRel_refl: "configRel f f"
  by (simp add: configRel_def)

lemma applyConfigs_rel:
  assumes "list_all2 configRel cfgs1 cfgs2"
  shows "optRel (applyConfigs cfgs1 c) (applyConfigs cfgs2 c)"
  using assms
proof (induction cfgs1 cfgs2 arbitrary: c rule: list_all2_induct)
  case Nil
  show ?case by simp
next
  case (Cons f1 fs1 f2 fs2)
  from Cons.hyps(1) have "optRel (f1 c) (f2 c)" by (simp add: configRel_def)
  then show ?case
  proof (cases rule: optRel_cases)
    case 1
    obtain r c1 where r: "f2 c = (r, c1)" by (cases "f2 c")
    show ?thesis using 1 r Cons.IH[of c1] by (cases r) simp_all
  next
    case (2 e1 e2 c1)
    then show ?thesis by simp
  qed
qed

lemma Configs_rel:
  "list_all2 configRel cfgs1 cfgs2 \<Longrightarrow> configRel (Configs cfgs1) (Configs cfgs2)"
  by (simp add: configRel_def Configs_def applyConfigs_rel)

text \<open>
  C9. With a fixed configuration, fixed requested outputs and pure providers, the one thing
  that can differ between two runs of \<^verbatim>\<open>Inject\<close> on fresh containers is the order in
  which Go walks the registry map in \<^verbatim>\<open>findImplementingTypes\<close>. For any two walks the
  two runs have the same outcome: both fail, or both succeed with the same output values.
  The configuration and \<^verbatim>\<open>container.build\<close>, which reach the walk through the resolver
  lookup, are taken to depend on the lookup only through what it returns: on lookups in
  lockstep the registrations agree and the builds have the same outcome. The lemmas above
  show this of \<^verbatim>\<open>addNode\<close>, \<^verbatim>\<open>Provide\<close>, \<^verbatim>\<open>ProvideInModule\<close> and \<^verbatim>\<open>Configs\<close>
  and of the build with its resolution. In the witness the two runs fail with ambiguity
  errors that list the two candidates in different orders.
\<close>

theorem Inject_walk_independent:
  assumes "isWalk ord1" and "isWalk ord2"
    and "\<forall>g1 g2. lockstep g1 g2 \<longrightarrow>
           sameRegistration (config g1 newContainer) (config g2 newContainer)"
    and "\<forall>g1 g2 c. lockstep g1 g2 \<longrightarrow>
           sameOutcome (fst (bld g1 c l outs)) (fst (bld g2 c l outs))"
  shows "sameOutcome
           (Inject (config (getResolver explicit create ord1))
              (bld (getResolver explicit create ord1)) l outs)
           (Inject (config (getResolver explicit create ord2))
              (bld (getResolver explicit create ord2)) l outs)"
proof -
  let ?g1 = "getResolver explicit create ord1" and ?g2 = "getResolver explicit create ord2"
  have ls: "lockstep ?g1 ?g2" by (rule getResolver_walks[OF assms(1,2)])
  from assms(3) ls have reg: "sameRegistration (config ?g1 newContainer) (config ?g2 newContainer)"
    by blast
  obtain e1 c1 e2 c2 where c: "config ?g1 newContainer = (e1, c1)" "config ?g2 newContainer = (e2, c2)"
    by (cases "config ?g1 newContainer"; cases "config ?g2 newContainer") auto
  show ?thesis
  proof (cases e1)
    case None
    with reg c have "e2 = None" "c2 = c1" by (auto simp: sameRegistration_def)
    with None c assms(4) ls show ?thesis
      by (simp add: Inject_def buildContainer_def)
  next
    case (Some a)
    with reg c obtain b where "e2 = Some b" by (auto simp: sameRegistration_def)
    with Some c show ?thesis by (simp add: Inject_def buildContainer_def sameOutcome_def)
  qed
qed

lemma twoDucksConfig_rel:
  "lockstep g1 g2 \<Longrightarrow> configRel (twoDucksConfig g1) (twoDucksConfig g2)"
  unfolding twoDucksConfig_def registerWith_def
  by (intro Configs_rel list_all2_Cons[THEN iffD2] conjI Provide_rel addNode_rel) simp_all

lemma buildTo_rel:
  "lockstep g1 g2 \<Longrightarrow> sameOutcome (fst (buildTo n g1 c l outs)) (fst (buildTo n g2 c l outs))"
  using build_rel[OF resolveF_rel, of g1 g2 n c l outs]
  by (simp add: buildTo_def stepRel_def)

theorem Inject_walk_independent_witness:
  "sameOutcome
     (Inject (twoDucksConfig (getResolver getExplicitResolver noCreate id))
        (buildTo 4 (getResolver getExplicitResolver noCreate id)) exLoc [wrapperT])
     (Inject (twoDucksConfig (getResolver getExplicitResolver noCreate rev))
        (buildTo 4 (getResolver getExplicitResolver noCreate rev)) exLoc [wrapperT]) \<and>
   Inject (twoDucksConfig (getResolver getExplicitResolver noCreate id))
        (buildTo 4 (getResolver getExplicitResolver noCreate id)) exLoc [wrapperT] \<noteq>
   Inject (twoDucksConfig (getResolver getExplicitResolver noCreate rev))
        (buildTo 4 (getResolver getExplicitResolver noCreate rev)) exLoc [wrapperT]"
proof -
  have w: "isWalk id" "isWalk rev" by (simp_all add: isWalk_def)
  have cfg: "\<forall>g1 g2. lockstep g1 g2 \<longrightarrow>
      sameRegistration (twoDucksConfig g1 newContainer) (twoDucksConfig g2 newContainer)"
    using twoDucksConfig_rel by (simp add: configRel_def optRel_sameRegistration)
  have bld: "\<forall>g1 g2 c. lockstep g1 g2 \<longrightarrow>
      sameOutcome (fst (buildTo 4 g1 c exLoc [wrapperT])) (fst (buildTo 4 g2 c exLoc [wrapperT]))"
    using buildTo_rel by blast
  have ne: "Inject (twoDucksConfig (getResolver getExplicitResolver noCreate id))
        (buildTo 4 (getResolver getExplicitResolver noCreate id)) exLoc [wrapperT] \<noteq>
      Inject (twoDucksConfig (getResolver getExplicitResolver noCreate rev))
        (buildTo 4 (getResolver getExplicitResolver noCreate rev)) exLoc [wrapperT]"
    by code_simp
  from Inject_walk_independent[where config=twoDucksConfig and bld="buildTo 4", OF w cfg bld] ne
  show ?thesis by simp
qed

end
